theory Spec2Isabelle
  imports Main
begin

section \<open>String primitives of the source resolver\<close>

text \<open>
  The resolver (\<^verbatim>\<open>github.ts\<close>) works on JavaScript strings with \<^verbatim>\<open>startsWith\<close>,
  \<^verbatim>\<open>includes\<close>, \<^verbatim>\<open>split("/")\<close>, \<^verbatim>\<open>join("/")\<close>, \<^verbatim>\<open>replace\<close> with a string pattern and
  three regular expressions. Strings are modelled as character lists; every pattern the code
  uses is ASCII.
\<close>

definition startsWith :: "string \<Rightarrow> string \<Rightarrow> bool" where
  "startsWith s p = (take (length p) s = p)"

definition endsWith :: "string \<Rightarrow> string \<Rightarrow> bool" where
  "endsWith s p = (length p \<le> length s \<and> drop (length s - length p) s = p)"

fun includes_str :: "string \<Rightarrow> string \<Rightarrow> bool" where
  "includes_str [] p = (p = [])"
| "includes_str (c # cs) p = (startsWith (c # cs) p \<or> includes_str cs p)"

text \<open>\<^verbatim>\<open>s.split("/")\<close>: the pieces between the slashes, empty pieces included.\<close>

fun split_slash :: "string \<Rightarrow> string list" where
  "split_slash [] = [[]]"
| "split_slash (c # cs) =
     (if c = CHR ''/'' then [] # split_slash cs
      else (case split_slash cs of [] \<Rightarrow> [[c]] | x # xs \<Rightarrow> (c # x) # xs))"

text \<open>\<^verbatim>\<open>parts.join("/")\<close>.\<close>

fun join_slash :: "string list \<Rightarrow> string" where
  "join_slash [] = []"
| "join_slash [x] = x"
| "join_slash (x # y # ys) = x @ CHR ''/'' # join_slash (y # ys)"

text \<open>\<^verbatim>\<open>parts.join(sep)\<close> with another separator.\<close>

fun join_sep :: "string \<Rightarrow> string list \<Rightarrow> string" where
  "join_sep sep [] = []"
| "join_sep sep [x] = x"
| "join_sep sep (x # y # ys) = x @ sep @ join_sep sep (y # ys)"

text \<open>\<^verbatim>\<open>s.replace(pat, rep)\<close> with a string pattern: only the first occurrence is replaced.\<close>

fun replace_first :: "string \<Rightarrow> string \<Rightarrow> string \<Rightarrow> string" where
  "replace_first [] pat rep = (if pat = [] then rep else [])"
| "replace_first (c # cs) pat rep =
     (if startsWith (c # cs) pat then rep @ drop (length pat) (c # cs)
      else c # replace_first cs pat rep)"

text \<open>The character class \<^verbatim>\<open>[\w-]\<close>: ASCII letters, digits, underscore and hyphen.\<close>

definition word_or_hyphen :: "char \<Rightarrow> bool" where
  "word_or_hyphen c =
     (let n = (of_char c :: nat)
      in (65 \<le> n \<and> n \<le> 90) \<or> (97 \<le> n \<and> n \<le> 122) \<or> (48 \<le> n \<and> n \<le> 57)
         \<or> c = CHR ''_'' \<or> c = CHR ''-'')"

text \<open>
  \<^verbatim>\<open>/^[\w-]+\/[\w-]+$/.test(s)\<close>. The class excludes the slash, so the greedy first group is
  the longest prefix of class characters and the match is deterministic.
\<close>

definition matches_owner_repo :: "string \<Rightarrow> bool" where
  "matches_owner_repo s =
     (let a = takeWhile word_or_hyphen s; r = dropWhile word_or_hyphen s
      in a \<noteq> [] \<and> (case r of [] \<Rightarrow> False
                    | c # b \<Rightarrow> c = CHR ''/'' \<and> b \<noteq> [] \<and> list_all word_or_hyphen b))"

text \<open>\<^verbatim>\<open>/^[\w-]+\/[\w-]+\//.test(s)\<close>.\<close>

definition matches_owner_repo_path :: "string \<Rightarrow> bool" where
  "matches_owner_repo_path s =
     (let a = takeWhile word_or_hyphen s; r = dropWhile word_or_hyphen s
      in a \<noteq> [] \<and> (case r of [] \<Rightarrow> False
                    | c # t \<Rightarrow> c = CHR ''/'' \<and> takeWhile word_or_hyphen t \<noteq> []
                        \<and> startsWith (dropWhile word_or_hyphen t) ''/''))"

text \<open>\<^verbatim>\<open>s.replace(/\/SKILL\.md$/, "")\<close>: a final \<^verbatim>\<open>/SKILL.md\<close> is removed, once.\<close>

definition strip_SKILL_md :: "string \<Rightarrow> string" where
  "strip_SKILL_md s =
     (if endsWith s ''/SKILL.md'' then take (length s - length ''/SKILL.md'') s else s)"

section \<open>Data model\<close>

text \<open>
  \<^verbatim>\<open>ContentSource\<close> is a tagged union; the optional fields \<^verbatim>\<open>branch?\<close> and \<^verbatim>\<open>path?\<close> of a
  GitHub source are \<open>None\<close> when absent.
\<close>

datatype ContentSource =
    GitHub (owner: string) (repo: string) (branch: "string option") (path: "string option")
  | Url string
  | Local string

text \<open>
  Every \<^verbatim>\<open>throw\<close> of the resolver and every rejection of a platform call is a value. The
  constructor names follow the messages of the source:
  \<^verbatim>\<open>Unable to parse source: <s>\<close>, \<^verbatim>\<open>Invalid GitHub URL: <u>\<close>,
  \<^verbatim>\<open>Failed to fetch from GitHub: <status>\<close>, \<^verbatim>\<open>Failed to fetch from URL: <status>\<close>;
  \<open>URLTypeError\<close> is the \<^verbatim>\<open>TypeError\<close> of \<^verbatim>\<open>new URL\<close>, \<open>FetchRejected\<close> a rejected
  \<^verbatim>\<open>fetch\<close>, \<open>ReadFileFailed\<close> a rejected \<^verbatim>\<open>readFile\<close>.
\<close>

datatype error =
    UnableToParseSource string
  | InvalidGitHubURL string
  | URLTypeError string
  | FailedToFetchFromGitHub nat
  | FailedToFetchFromURL nat
  | FetchRejected string
  | ReadFileFailed string

record response =
  ok :: bool
  status :: nat
  text_body :: string

record FetchedSkill =
  skill_id :: string
  skill_name :: string
  skill_description :: string
  skill_content :: string
  skill_source :: ContentSource

text \<open>
  The platform the resolver runs on, as a parameter: the WHATWG \<^verbatim>\<open>URL\<close> constructor
  (only \<^verbatim>\<open>pathname\<close> is read; \<open>None\<close> when the constructor throws), \<^verbatim>\<open>fetch\<close> (\<open>None\<close> when
  the promise rejects), \<^verbatim>\<open>fs.promises.readFile\<close> (\<open>None\<close> when it rejects), the functions
  of \<^verbatim>\<open>node:path\<close>, and \<^verbatim>\<open>parseFrontmatter\<close> of \<^verbatim>\<open>catalog.ts\<close>.
\<close>

record platform =
  URL_pathname :: "string \<Rightarrow> string option"
  fetch :: "string \<Rightarrow> response option"
  readFile :: "string \<Rightarrow> string option"
  path_resolve :: "string \<Rightarrow> string"
  path_join :: "string \<Rightarrow> string \<Rightarrow> string"
  path_basename :: "string \<Rightarrow> string"
  parseFrontmatter :: "string \<Rightarrow> (string \<rightharpoonup> string)"

section \<open>Parsing a source string\<close>

text \<open>\<^verbatim>\<open>xs[i]\<close> where the index may be out of range: \<^verbatim>\<open>undefined\<close> is \<open>None\<close>.\<close>

definition nth_opt :: "'a list \<Rightarrow> nat \<Rightarrow> 'a option" where
  "nth_opt xs i = (if i < length xs then Some (xs ! i) else None)"

text \<open>\<^verbatim>\<open>parseGitHubUrl\<close>; \<^verbatim>\<open>filter(Boolean)\<close> drops the empty pieces.\<close>

definition parseGitHubUrl :: "platform \<Rightarrow> string \<Rightarrow> error + ContentSource" where
  "parseGitHubUrl pf url =
     (case URL_pathname pf url of
        None \<Rightarrow> Inl (URLTypeError url)
      | Some pathname \<Rightarrow>
          (let pathParts = filter (\<lambda>s. s \<noteq> []) (split_slash pathname)
           in if length pathParts < 2 then Inl (InvalidGitHubURL url)
              else
                (let owner = pathParts ! 0;
                     repo = pathParts ! 1;
                     tree_or_blob = (length pathParts > 2 \<and>
                        (pathParts ! 2 = ''tree'' \<or> pathParts ! 2 = ''blob''));
                     branch = (if tree_or_blob then nth_opt pathParts 3 else None);
                     skillPath = (if tree_or_blob \<and> length pathParts > 4
                        then Some (strip_SKILL_md (join_slash (drop 4 pathParts)))
                        else None)
                 in Inr (GitHub owner repo branch skillPath))))"

text \<open>
  \<^verbatim>\<open>parseSource\<close>, in the order of the source: local prefix, \<^verbatim>\<open>github.com\<close>, the two
  shorthands, generic URL, error. In the two shorthand branches the regular expression has
  matched, so \<^verbatim>\<open>parts[0]\<close> and \<^verbatim>\<open>parts[1]\<close> exist (lemma \<open>shorthand_has_two_parts\<close>).
\<close>

definition parseSource :: "platform \<Rightarrow> string \<Rightarrow> error + ContentSource" where
  "parseSource pf source =
     (if startsWith source ''/'' \<or> startsWith source ''./'' \<or> startsWith source ''../''
        then Inr (Local source)
      else if includes_str source ''github.com'' then parseGitHubUrl pf source
      else if matches_owner_repo source
        then (let parts = split_slash source
              in Inr (GitHub (parts ! 0) (parts ! 1) None None))
      else if matches_owner_repo_path source
        then (let parts = split_slash source
              in Inr (GitHub (parts ! 0) (parts ! 1) None (Some (join_slash (drop 2 parts)))))
      else if startsWith source ''http://'' \<or> startsWith source ''https://''
        then Inr (Url source)
      else Inl (UnableToParseSource source))"

section \<open>Fetching\<close>

text \<open>
  The fetchers are asynchronous and effectful. Each one returns its result together with the
  platform calls it made, in order, so that "falls back once" and "reads this first" are
  statements about the trace.
\<close>

datatype io_event = HttpGet string | ReadFile string

text \<open>\<^verbatim>\<open>x || d\<close> on a possibly undefined string: \<^verbatim>\<open>undefined\<close> and \<^verbatim>\<open>""\<close> are falsy.\<close>

definition or_else :: "string option \<Rightarrow> string \<Rightarrow> string" where
  "or_else x d = (case x of None \<Rightarrow> d | Some s \<Rightarrow> if s = [] then d else s)"

text \<open>\<^verbatim>\<open>xs.pop()\<close>: the last element, \<^verbatim>\<open>undefined\<close> on the empty array.\<close>

definition pop :: "'a list \<Rightarrow> 'a option" where
  "pop xs = (if xs = [] then None else Some (last xs))"

definition github_filePath :: "string option \<Rightarrow> string" where
  "github_filePath p =
     (case p of None \<Rightarrow> ''SKILL.md''
      | Some s \<Rightarrow> if s = [] then ''SKILL.md'' else s @ ''/SKILL.md'')"

definition github_rawUrl :: "string \<Rightarrow> string \<Rightarrow> string \<Rightarrow> string \<Rightarrow> string" where
  "github_rawUrl own rep br filePath =
     ''https://raw.githubusercontent.com/'' @ own @ ''/'' @ rep @ ''/'' @ br @ ''/'' @ filePath"

text \<open>The part of every raw-content URL before the owner.\<close>

definition raw_host :: string where
  "raw_host = ''https://raw.githubusercontent.com''"

definition fetchFromGitHub ::
  "platform \<Rightarrow> string \<Rightarrow> string \<Rightarrow> string option \<Rightarrow> string option
     \<Rightarrow> (error + string) \<times> io_event list" where
  "fetchFromGitHub pf own rep br_opt path_opt =
     (let br = or_else br_opt ''main'';
          filePath = github_filePath path_opt;
          rawUrl = github_rawUrl own rep br filePath
      in case fetch pf rawUrl of
           None \<Rightarrow> (Inl (FetchRejected rawUrl), [HttpGet rawUrl])
         | Some response \<Rightarrow>
             if \<not> ok response then
               (if br = ''main'' then
                  (let masterUrl = replace_first rawUrl ''/main/'' ''/master/''
                   in case fetch pf masterUrl of
                        None \<Rightarrow> (Inl (FetchRejected masterUrl), [HttpGet rawUrl, HttpGet masterUrl])
                      | Some masterResponse \<Rightarrow>
                          if ok masterResponse
                          then (Inr (text_body masterResponse), [HttpGet rawUrl, HttpGet masterUrl])
                          else (Inl (FailedToFetchFromGitHub (status response)),
                                [HttpGet rawUrl, HttpGet masterUrl]))
                else (Inl (FailedToFetchFromGitHub (status response)), [HttpGet rawUrl]))
             else (Inr (text_body response), [HttpGet rawUrl]))"

definition fetchFromUrl :: "platform \<Rightarrow> string \<Rightarrow> (error + string) \<times> io_event list" where
  "fetchFromUrl pf url =
     (case fetch pf url of
        None \<Rightarrow> (Inl (FetchRejected url), [HttpGet url])
      | Some response \<Rightarrow>
          if \<not> ok response then (Inl (FailedToFetchFromURL (status response)), [HttpGet url])
          else (Inr (text_body response), [HttpGet url]))"

text \<open>\<^verbatim>\<open>fetchFromLocal\<close>: the \<^verbatim>\<open>catch\<close> swallows the first failure and reads the path itself.\<close>

definition fetchFromLocal :: "platform \<Rightarrow> string \<Rightarrow> (error + string) \<times> io_event list" where
  "fetchFromLocal pf p =
     (let resolvedPath = path_resolve pf p;
          skillPath = path_join pf resolvedPath ''SKILL.md''
      in case readFile pf skillPath of
           Some c \<Rightarrow> (Inr c, [ReadFile skillPath])
         | None \<Rightarrow>
             (case readFile pf resolvedPath of
                Some c \<Rightarrow> (Inr c, [ReadFile skillPath, ReadFile resolvedPath])
              | None \<Rightarrow> (Inl (ReadFileFailed resolvedPath),
                          [ReadFile skillPath, ReadFile resolvedPath])))"

text \<open>The identifier that \<^verbatim>\<open>fetchSkill\<close> derives from the source.\<close>

definition derive_id :: "platform \<Rightarrow> ContentSource \<Rightarrow> error + string" where
  "derive_id pf source =
     (case source of
        GitHub own rep br path_opt \<Rightarrow>
          Inr (or_else (Option.bind path_opt (\<lambda>p. pop (split_slash p))) rep)
      | Local p \<Rightarrow> Inr (path_basename pf p)
      | Url u \<Rightarrow>
          (case URL_pathname pf u of
             None \<Rightarrow> Inl (URLTypeError u)
           | Some pathname \<Rightarrow>
               Inr (or_else (pop (filter (\<lambda>s. s \<noteq> []) (split_slash pathname))) ''skill'')))"

definition fetchSkill ::
  "platform \<Rightarrow> ContentSource \<Rightarrow> (error + FetchedSkill) \<times> io_event list" where
  "fetchSkill pf source =
     (let (r, events) =
            (case source of
               GitHub own rep br path_opt \<Rightarrow> fetchFromGitHub pf own rep br path_opt
             | Url u \<Rightarrow> fetchFromUrl pf u
             | Local p \<Rightarrow> fetchFromLocal pf p)
      in case r of
           Inl e \<Rightarrow> (Inl e, events)
         | Inr content \<Rightarrow>
             (let frontmatter = parseFrontmatter pf content
              in case derive_id pf source of
                   Inl e \<Rightarrow> (Inl e, events)
                 | Inr i \<Rightarrow>
                     (Inr \<lparr>skill_id = i,
                           skill_name = or_else (frontmatter ''name'') i,
                           skill_description = or_else (frontmatter ''description'') [],
                           skill_content = content,
                           skill_source = source\<rparr>, events)))"

section \<open>Bridge files\<close>

record BridgeFile =
  filePath :: string
  content :: string
  description :: string

text \<open>
  Modelled from the spec: \<^verbatim>\<open>writeBridgeFiles\<close> of \<^verbatim>\<open>bridge.ts\<close>, which the CLI imports and
  which is not among the sources. "For each candidate file, if it already exists and
  \<^verbatim>\<open>overwrite\<close> is false, skip it and report it as skipped; otherwise write it and report it
  as written." The file system is a map from paths to contents; a candidate's destination is
  its \<^verbatim>\<open>filePath\<close> joined to the root.
\<close>

fun writeBridgeFiles ::
  "platform \<Rightarrow> (string \<rightharpoonup> string) \<Rightarrow> BridgeFile list \<Rightarrow> string \<Rightarrow> bool
     \<Rightarrow> (string \<rightharpoonup> string) \<times> string list \<times> string list" where
  "writeBridgeFiles pf fs [] root overwrite = (fs, [], [])"
| "writeBridgeFiles pf fs (f # files) root overwrite =
     (let dest = path_join pf root (filePath f)
      in if fs dest \<noteq> None \<and> \<not> overwrite
         then (case writeBridgeFiles pf fs files root overwrite of
                 (fs', written, skipped) \<Rightarrow> (fs', written, filePath f # skipped))
         else (case writeBridgeFiles pf (fs(dest \<mapsto> content f)) files root overwrite of
                 (fs', written, skipped) \<Rightarrow> (fs', filePath f # written, skipped)))"

text \<open>
  \<^verbatim>\<open>autoGenerateBridgeFiles\<close> of the CLI calls \<^verbatim>\<open>writeBridgeFiles(files)\<close> with one argument:
  the root and \<^verbatim>\<open>overwrite\<close> take their defaults, and the spec gives \<^verbatim>\<open>overwrite=false\<close>.
  \<^verbatim>\<open>generateBridgeFiles\<close> (also of \<^verbatim>\<open>bridge.ts\<close>) and the default root are parameters. The
  result is the file system afterwards and the \<^verbatim>\<open>showInfo\<close> lines.
\<close>

definition autoGenerateBridgeFiles ::
  "platform \<Rightarrow> ('a list \<Rightarrow> BridgeFile list) \<Rightarrow> string \<Rightarrow> (string \<rightharpoonup> string) \<Rightarrow> 'a list
     \<Rightarrow> (string \<rightharpoonup> string) \<times> string list" where
  "autoGenerateBridgeFiles pf generateBridgeFiles default_root fs assistants =
     (let files = generateBridgeFiles assistants
      in case writeBridgeFiles pf fs files default_root False of
           (fs', written, skipped) \<Rightarrow>
             (fs', if length written > 0
                   then [''Generated context files: '' @ join_sep '', '' written]
                   else []))"

section \<open>A concrete platform for worked examples\<close>

text \<open>
  A small network, file system and URL table on which the definitions above can be run. The
  repository \<^verbatim>\<open>main/skills\<close> has its skill file on \<^verbatim>\<open>master\<close> only, as has \<^verbatim>\<open>acme/skills\<close>;
  every address not listed answers 404.
\<close>

definition sample_ok :: "string \<Rightarrow> response option" where
  "sample_ok body = Some \<lparr>ok = True, status = 200, text_body = body\<rparr>"

definition sample_fetch :: "string \<Rightarrow> response option" where
  "sample_fetch u =
     (if u = ''https://raw.githubusercontent.com/main/skills/master/SKILL.md''
        then sample_ok ''# skills of main, on master''
      else if u = ''https://raw.githubusercontent.com/acme/skills/master/SKILL.md''
        then sample_ok ''# skills of acme, on master''
      else if u = ''https://raw.githubusercontent.com/acme/skills/main/lint//SKILL.md''
        then sample_ok ''# lint''
      else if u = ''https://raw.githubusercontent.com/acme/skills/dev/tools/lint/SKILL.md''
        then sample_ok ''# lint, on dev''
      else if u = ''https://example.com/docs/guide.md''
        then sample_ok ''# guide''
      else Some \<lparr>ok = False, status = 404, text_body = ''404: Not Found''\<rparr>)"

definition sample_readFile :: "string \<Rightarrow> string option" where
  "sample_readFile p = (if p = ''/work/notes.md'' then Some ''# notes'' else None)"

definition sample_pathname :: "string \<Rightarrow> string option" where
  "sample_pathname u =
     (if startsWith u ''https://github.com/'' then Some (drop 18 u)
      else if startsWith u ''https://example.com/'' then Some (drop 19 u)
      else None)"

definition sample_platform :: platform where
  "sample_platform =
     \<lparr>URL_pathname = sample_pathname,
      fetch = sample_fetch,
      readFile = sample_readFile,
      path_resolve = (\<lambda>p. if startsWith p ''/'' then p else ''/work/'' @ p),
      path_join = (\<lambda>a b. a @ ''/'' @ b),
      path_basename = (\<lambda>p. or_else (pop (filter (\<lambda>s. s \<noteq> []) (split_slash p))) []),
      parseFrontmatter = (\<lambda>c. Map.empty)\<rparr>"

text \<open>A project in which the user has already written a \<^verbatim>\<open>CLAUDE.md\<close> of their own.\<close>

definition sample_fs :: "string \<rightharpoonup> string" where
  "sample_fs = [''/proj/CLAUDE.md'' \<mapsto> ''# my own notes'']"

definition sample_bridge_files :: "BridgeFile list" where
  "sample_bridge_files =
     [\<lparr>filePath = ''CLAUDE.md'', content = ''Read .ai/ for instructions.'',
       description = ''Claude Code''\<rparr>,
      \<lparr>filePath = ''AGENTS.md'', content = ''Read .ai/ for instructions.'',
       description = ''Codex''\<rparr>]"

section \<open>Facts about the string primitives\<close>

lemma split_slash_nonempty: "split_slash s \<noteq> []"
  by (induction s) (auto split: list.splits)

lemma split_slash_no_slash: "CHR ''/'' \<notin> set s \<Longrightarrow> split_slash s = [s]"
  by (induction s) auto

lemma split_slash_append:
  "CHR ''/'' \<notin> set a \<Longrightarrow> split_slash (a @ CHR ''/'' # b) = a # split_slash b"
  by (induction a) auto

lemma word_or_hyphen_not_slash: "word_or_hyphen c \<Longrightarrow> c \<noteq> CHR ''/''"
  by (auto simp: word_or_hyphen_def)

lemma word_or_hyphen_not_dot: "word_or_hyphen c \<Longrightarrow> c \<noteq> CHR ''.''"
  by (auto simp: word_or_hyphen_def)

lemma all_word_no_slash: "list_all word_or_hyphen s \<Longrightarrow> CHR ''/'' \<notin> set s"
  by (auto simp: list_all_iff dest: word_or_hyphen_not_slash)

lemma startsWith_iff: "startsWith s p \<longleftrightarrow> (\<exists>b. s = p @ b)"
proof
  assume "startsWith s p"
  then have "s = p @ drop (length p) s"
    by (metis append_take_drop_id startsWith_def)
  then show "\<exists>b. s = p @ b" ..
next
  assume "\<exists>b. s = p @ b"
  then show "startsWith s p" by (auto simp: startsWith_def)
qed

lemma includes_str_iff: "includes_str s p \<longleftrightarrow> (\<exists>a b. s = a @ p @ b)"
proof (induction s)
  case Nil
  show ?case by auto
next
  case (Cons c cs)
  show ?case
  proof
    assume "includes_str (c # cs) p"
    then consider "startsWith (c # cs) p" | "includes_str cs p" by auto
    then show "\<exists>a b. c # cs = a @ p @ b"
    proof cases
      case 1
      then obtain b where "c # cs = p @ b" by (auto simp: startsWith_iff)
      then have "c # cs = [] @ p @ b" by simp
      then show ?thesis by blast
    next
      case 2
      then obtain a b where "cs = a @ p @ b" using Cons.IH by auto
      then have "c # cs = (c # a) @ p @ b" by simp
      then show ?thesis by blast
    qed
  next
    assume "\<exists>a b. c # cs = a @ p @ b"
    then obtain a b where ab: "c # cs = a @ p @ b" by auto
    show "includes_str (c # cs) p"
    proof (cases a)
      case Nil
      with ab have "startsWith (c # cs) p" by (auto simp: startsWith_iff)
      then show ?thesis by simp
    next
      case (Cons x a')
      with ab have "cs = a' @ p @ b" by simp
      then have "includes_str cs p" using Cons.IH by auto
      then show ?thesis by simp
    qed
  qed
qed

lemma includes_str_set: "includes_str s p \<Longrightarrow> set p \<subseteq> set s"
  by (auto simp: includes_str_iff)

lemma takeWhile_word_slash:
  "list_all word_or_hyphen a \<Longrightarrow> takeWhile word_or_hyphen (a @ CHR ''/'' # b) = a"
  by (induction a) (auto simp: word_or_hyphen_def)

lemma dropWhile_word_slash:
  "list_all word_or_hyphen a \<Longrightarrow> dropWhile word_or_hyphen (a @ CHR ''/'' # b) = CHR ''/'' # b"
  by (induction a) (auto simp: word_or_hyphen_def)

lemma not_local_prefix_word:
  assumes "s \<noteq> []" "word_or_hyphen (hd s)"
  shows "\<not> startsWith s ''/''" "\<not> startsWith s ''./''" "\<not> startsWith s ''../''"
  using assms by (cases s; auto simp: startsWith_def word_or_hyphen_def)+

text \<open>
  The two tests on \<open>takeWhile\<close> and \<open>dropWhile\<close> accept the languages of the two regular
  expressions.
\<close>

lemma matches_owner_repo_iff:
  "matches_owner_repo s \<longleftrightarrow>
     (\<exists>own rep. s = own @ ''/'' @ rep \<and> own \<noteq> [] \<and> rep \<noteq> []
        \<and> list_all word_or_hyphen own \<and> list_all word_or_hyphen rep)"
proof
  assume m: "matches_owner_repo s"
  let ?a = "takeWhile word_or_hyphen s"
  from m obtain b where r: "dropWhile word_or_hyphen s = CHR ''/'' # b"
    and b: "b \<noteq> []" "list_all word_or_hyphen b" and a: "?a \<noteq> []"
    by (cases "dropWhile word_or_hyphen s") (auto simp: matches_owner_repo_def Let_def)
  have "s = ?a @ dropWhile word_or_hyphen s" by simp
  then have "s = ?a @ ''/'' @ b" using r by simp
  moreover have "list_all word_or_hyphen ?a"
    by (simp add: list_all_iff) (meson set_takeWhileD)
  ultimately show "\<exists>own rep. s = own @ ''/'' @ rep \<and> own \<noteq> [] \<and> rep \<noteq> []
        \<and> list_all word_or_hyphen own \<and> list_all word_or_hyphen rep"
    using a b by blast
next
  assume "\<exists>own rep. s = own @ ''/'' @ rep \<and> own \<noteq> [] \<and> rep \<noteq> []
        \<and> list_all word_or_hyphen own \<and> list_all word_or_hyphen rep"
  then show "matches_owner_repo s"
    by (auto simp: matches_owner_repo_def takeWhile_word_slash dropWhile_word_slash)
qed

lemma matches_owner_repo_path_iff:
  "matches_owner_repo_path s \<longleftrightarrow>
     (\<exists>own rep rest. s = own @ ''/'' @ rep @ ''/'' @ rest \<and> own \<noteq> [] \<and> rep \<noteq> []
        \<and> list_all word_or_hyphen own \<and> list_all word_or_hyphen rep)"
proof
  assume m: "matches_owner_repo_path s"
  let ?a = "takeWhile word_or_hyphen s"
  from m obtain t where r: "dropWhile word_or_hyphen s = CHR ''/'' # t"
    and t: "takeWhile word_or_hyphen t \<noteq> []" "startsWith (dropWhile word_or_hyphen t) ''/''"
    and a: "?a \<noteq> []"
    by (cases "dropWhile word_or_hyphen s") (auto simp: matches_owner_repo_path_def Let_def)
  let ?b = "takeWhile word_or_hyphen t"
  from t(2) obtain rest where rest: "dropWhile word_or_hyphen t = ''/'' @ rest"
    by (auto simp: startsWith_iff)
  have "t = ?b @ dropWhile word_or_hyphen t" by simp
  then have t': "t = ?b @ ''/'' @ rest" using rest by simp
  have "s = ?a @ dropWhile word_or_hyphen s" by simp
  then have "s = ?a @ ''/'' @ t" using r by simp
  then have "s = ?a @ ''/'' @ ?b @ ''/'' @ rest" using t' by simp
  moreover have "list_all word_or_hyphen ?a" "list_all word_or_hyphen ?b"
    by (simp_all add: list_all_iff) (meson set_takeWhileD)+
  ultimately show "\<exists>own rep rest. s = own @ ''/'' @ rep @ ''/'' @ rest \<and> own \<noteq> [] \<and> rep \<noteq> []
        \<and> list_all word_or_hyphen own \<and> list_all word_or_hyphen rep"
    using a t(1) by blast
next
  assume "\<exists>own rep rest. s = own @ ''/'' @ rep @ ''/'' @ rest \<and> own \<noteq> [] \<and> rep \<noteq> []
        \<and> list_all word_or_hyphen own \<and> list_all word_or_hyphen rep"
  then show "matches_owner_repo_path s"
    by (auto simp: matches_owner_repo_path_def takeWhile_word_slash dropWhile_word_slash
        startsWith_def)
qed

section \<open>Properties of \<open>parseSource\<close>\<close>

text \<open>
  C4. For every string \<open>owner/repo\<close> whose owner and repository name are non-empty and consist
  only of word characters and hyphens, \<open>parseSource\<close> returns a GitHub source with that
  owner and that repository, with no path and no branch.
\<close>

theorem parseSource_owner_repo:
  assumes "own \<noteq> []" and "rep \<noteq> []"
    and "list_all word_or_hyphen own" and "list_all word_or_hyphen rep"
  shows "parseSource pf (own @ ''/'' @ rep) = Inr (GitHub own rep None None)"
proof -
  let ?s = "own @ ''/'' @ rep"
  have hd: "?s \<noteq> []" "word_or_hyphen (hd ?s)"
    using assms(1,3) by (cases own; simp)+
  have nodot: "CHR ''.'' \<notin> set ?s"
    using assms(3,4) by (auto simp: list_all_iff dest: word_or_hyphen_not_dot)
  have nogh: "\<not> includes_str ?s ''github.com''"
    using includes_str_set[of ?s "''github.com''"] nodot by auto
  have m: "matches_owner_repo ?s"
    using assms by (simp add: matches_owner_repo_def takeWhile_word_slash dropWhile_word_slash)
  have sp: "split_slash ?s = [own, rep]"
    using assms(3,4) by (simp add: split_slash_append split_slash_no_slash all_word_no_slash)
  show ?thesis
    using not_local_prefix_word[OF hd] nogh m sp
    by (simp add: parseSource_def)
qed

theorem parseSource_owner_repo_witness:
  "''vercel-labs'' \<noteq> [] \<and> ''agent_skills'' \<noteq> []
   \<and> list_all word_or_hyphen ''vercel-labs'' \<and> list_all word_or_hyphen ''agent_skills''
   \<and> parseSource sample_platform (''vercel-labs'' @ ''/'' @ ''agent_skills'')
       = Inr (GitHub ''vercel-labs'' ''agent_skills'' None None)"
proof -
  have h: "''vercel-labs'' \<noteq> []" "''agent_skills'' \<noteq> []"
    "list_all word_or_hyphen ''vercel-labs''" "list_all word_or_hyphen ''agent_skills''"
    by (simp_all add: word_or_hyphen_def)
  show ?thesis
    using h parseSource_owner_repo [OF h, of sample_platform] by blast
qed

text \<open>
  C6. Every string starting with \<^verbatim>\<open>/\<close>, \<^verbatim>\<open>./\<close> or \<^verbatim>\<open>../\<close> becomes a local source whose path is
  the input itself; a string that matches none of the patterns of the grammar (no local
  prefix, no \<^verbatim>\<open>github.com\<close>, neither shorthand, no \<^verbatim>\<open>http(s)://\<close> prefix) fails with
  "Unable to parse source", and only such strings do; \<^verbatim>\<open>not a valid source!!\<close> is one of them.
\<close>

theorem parseSource_local_or_unparseable:
  "(startsWith s ''/'' \<or> startsWith s ''./'' \<or> startsWith s ''../''
      \<longrightarrow> parseSource pf s = Inr (Local s))
   \<and> ((\<not> startsWith s ''/'' \<and> \<not> startsWith s ''./'' \<and> \<not> startsWith s ''../''
        \<and> \<not> includes_str s ''github.com''
        \<and> \<not> matches_owner_repo s \<and> \<not> matches_owner_repo_path s
        \<and> \<not> startsWith s ''http://'' \<and> \<not> startsWith s ''https://'')
      \<longleftrightarrow> parseSource pf s = Inl (UnableToParseSource s))
   \<and> parseSource pf ''not a valid source!!'' = Inl (UnableToParseSource ''not a valid source!!'')"
proof (intro conjI)
  show "startsWith s ''/'' \<or> startsWith s ''./'' \<or> startsWith s ''../''
      \<longrightarrow> parseSource pf s = Inr (Local s)"
    by (simp add: parseSource_def)
  have gh: "parseGitHubUrl pf s \<noteq> Inl (UnableToParseSource s)"
    by (simp add: parseGitHubUrl_def Let_def split: option.splits)
  show "(\<not> startsWith s ''/'' \<and> \<not> startsWith s ''./'' \<and> \<not> startsWith s ''../''
        \<and> \<not> includes_str s ''github.com''
        \<and> \<not> matches_owner_repo s \<and> \<not> matches_owner_repo_path s
        \<and> \<not> startsWith s ''http://'' \<and> \<not> startsWith s ''https://'')
      \<longleftrightarrow> parseSource pf s = Inl (UnableToParseSource s)"
    using gh by (simp add: parseSource_def Let_def)
  show "parseSource pf ''not a valid source!!''
      = Inl (UnableToParseSource ''not a valid source!!'')"
    by (simp add: parseSource_def startsWith_def matches_owner_repo_def
        matches_owner_repo_path_def word_or_hyphen_def)
qed

theorem parseSource_local_or_unparseable_witness:
  "startsWith ''./foo'' ''./'' \<and> parseSource sample_platform ''./foo'' = Inr (Local ''./foo'')
   \<and> startsWith ''/abs/foo'' ''/''
   \<and> parseSource sample_platform ''/abs/foo'' = Inr (Local ''/abs/foo'')
   \<and> \<not> includes_str ''owner repo'' ''github.com'' \<and> \<not> matches_owner_repo ''owner repo''
   \<and> \<not> matches_owner_repo_path ''owner repo''
   \<and> parseSource sample_platform ''owner repo'' = Inl (UnableToParseSource ''owner repo'')"
proof -
  have a: "startsWith ''./foo'' ''./''" and b: "startsWith ''/abs/foo'' ''/''"
    by (simp_all add: startsWith_def)
  have c: "\<not> startsWith ''owner repo'' ''/''" "\<not> startsWith ''owner repo'' ''./''"
    "\<not> startsWith ''owner repo'' ''../''" "\<not> includes_str ''owner repo'' ''github.com''"
    "\<not> matches_owner_repo ''owner repo''" "\<not> matches_owner_repo_path ''owner repo''"
    "\<not> startsWith ''owner repo'' ''http://''" "\<not> startsWith ''owner repo'' ''https://''"
    by (simp_all add: startsWith_def matches_owner_repo_def matches_owner_repo_path_def
        word_or_hyphen_def)
  show ?thesis
    using a b c
      parseSource_local_or_unparseable [of "''./foo''" sample_platform]
      parseSource_local_or_unparseable [of "''/abs/foo''" sample_platform]
      parseSource_local_or_unparseable [of "''owner repo''" sample_platform]
    by blast
qed

lemma join_slash_Cons: "ps \<noteq> [] \<Longrightarrow> join_slash (p # ps) = p @ CHR ''/'' # join_slash ps"
  by (cases ps) auto

lemma split_join_slash:
  "ps \<noteq> [] \<Longrightarrow> \<forall>p\<in>set ps. CHR ''/'' \<notin> set p \<Longrightarrow> split_slash (join_slash ps) = ps"
proof (induction ps)
  case Nil
  then show ?case by simp
next
  case (Cons p ps)
  show ?case
  proof (cases ps)
    case Nil
    with Cons.prems show ?thesis by (simp add: split_slash_no_slash)
  next
    case (Cons q qs)
    with Cons.prems Cons.IH show ?thesis
      by (simp add: split_slash_append del: split_slash.simps)
  qed
qed

lemma endsWith_iff: "endsWith s p \<longleftrightarrow> (\<exists>a. s = a @ p)"
proof
  assume "endsWith s p"
  then have "s = take (length s - length p) s @ p"
    by (metis append_take_drop_id endsWith_def)
  then show "\<exists>a. s = a @ p" ..
next
  assume "\<exists>a. s = a @ p"
  then show "endsWith s p" by (auto simp: endsWith_def)
qed

lemma strip_SKILL_md_cases:
  "if endsWith s ''/SKILL.md'' then strip_SKILL_md s @ ''/SKILL.md'' = s else strip_SKILL_md s = s"
proof (cases "endsWith s ''/SKILL.md''")
  case True
  then obtain a where "s = a @ ''/SKILL.md''" by (auto simp: endsWith_iff)
  then show ?thesis using True by (simp add: strip_SKILL_md_def)
next
  case False
  then show ?thesis by (simp add: strip_SKILL_md_def)
qed

text \<open>
  C5. For every URL \<^verbatim>\<open>https://github.com/O/R/tree/B/P\<close> (or \<^verbatim>\<open>/blob/\<close>), where \<open>O\<close>, \<open>R\<close> and
  \<open>B\<close> are single non-empty path segments and \<open>P\<close> is a path of one or more non-empty
  segments, and whose pathname the platform's \<^verbatim>\<open>URL\<close> reports as \<^verbatim>\<open>/O/R/tree/B/P\<close>,
  \<open>parseSource\<close> returns the GitHub source with owner \<open>O\<close>, repository \<open>R\<close>, branch \<open>B\<close> and
  path \<open>P\<close>, except that a final \<^verbatim>\<open>/SKILL.md\<close> of \<open>P\<close> is removed from the returned path.
\<close>

theorem parseSource_github_tree_url:
  assumes O: "own \<noteq> []" "CHR ''/'' \<notin> set own"
    and R: "rep \<noteq> []" "CHR ''/'' \<notin> set rep"
    and B: "br \<noteq> []" "CHR ''/'' \<notin> set br"
    and ps: "ps \<noteq> []" "\<forall>p\<in>set ps. p \<noteq> [] \<and> CHR ''/'' \<notin> set p"
    and P: "P = join_slash ps"
    and kind: "kind = ''tree'' \<or> kind = ''blob''"
    and url: "url = ''https://github.com/'' @ own @ ''/'' @ rep @ ''/'' @ kind @ ''/'' @ br @ ''/'' @ P"
    and pathname: "URL_pathname pf url =
        Some (''/'' @ own @ ''/'' @ rep @ ''/'' @ kind @ ''/'' @ br @ ''/'' @ P)"
  shows "\<exists>P'. parseSource pf url = Inr (GitHub own rep (Some br) (Some P'))
           \<and> (if endsWith P ''/SKILL.md'' then P' @ ''/SKILL.md'' = P else P' = P)"
proof -
  have k: "kind \<noteq> []" "CHR ''/'' \<notin> set kind" using kind by auto
  have nl: "\<not> startsWith url ''/''" "\<not> startsWith url ''./''" "\<not> startsWith url ''../''"
    by (simp_all add: url startsWith_def)
  have "url = ''https://'' @ ''github.com'' @ (''/'' @ own @ ''/'' @ rep @ ''/'' @ kind @ ''/'' @ br @ ''/'' @ P)"
    by (simp add: url)
  then have gh: "includes_str url ''github.com''"
    unfolding includes_str_iff by blast
  define pn where "pn = ''/'' @ own @ ''/'' @ rep @ ''/'' @ kind @ ''/'' @ br @ ''/'' @ P"
  have "split_slash pn = [] # own # rep # kind # br # split_slash (join_slash ps)"
    using O R B k by (simp add: pn_def P split_slash_append)
  then have sp: "split_slash pn = [] # own # rep # kind # br # ps"
    using ps by (simp add: split_join_slash)
  have flt: "filter (\<lambda>s. s \<noteq> []) (split_slash pn) = own # rep # kind # br # ps"
    using O R B k ps by (simp add: sp filter_id_conv)
  have pnm: "URL_pathname pf url = Some pn"
    using pathname by (simp add: pn_def)
  have len: "length ps > 0" using ps by simp
  have res: "parseGitHubUrl pf url = Inr (GitHub own rep (Some br) (Some (strip_SKILL_md P)))"
    using kind len by (auto simp add: parseGitHubUrl_def pnm flt Let_def nth_opt_def P)
  have "parseSource pf url = Inr (GitHub own rep (Some br) (Some (strip_SKILL_md P)))"
    using nl gh res by (simp add: parseSource_def)
  then show ?thesis using strip_SKILL_md_cases[of P] by blast
qed


theorem parseSource_github_tree_url_witness:
  "''acme'' \<noteq> [] \<and> CHR ''/'' \<notin> set ''acme'' \<and> ''skills'' \<noteq> [] \<and> CHR ''/'' \<notin> set ''skills''
   \<and> ''dev'' \<noteq> [] \<and> CHR ''/'' \<notin> set ''dev''
   \<and> ''tools/lint/SKILL.md'' = join_slash [''tools'', ''lint'', ''SKILL.md'']
   \<and> URL_pathname sample_platform ''https://github.com/acme/skills/blob/dev/tools/lint/SKILL.md''
       = Some ''/acme/skills/blob/dev/tools/lint/SKILL.md''
   \<and> endsWith ''tools/lint/SKILL.md'' ''/SKILL.md''
   \<and> parseSource sample_platform ''https://github.com/acme/skills/blob/dev/tools/lint/SKILL.md''
       = Inr (GitHub ''acme'' ''skills'' (Some ''dev'') (Some ''tools/lint''))"
proof -
  let ?url = "''https://github.com/acme/skills/blob/dev/tools/lint/SKILL.md''"
  have h: "''acme'' \<noteq> []" "CHR ''/'' \<notin> set ''acme''" "''skills'' \<noteq> []"
    "CHR ''/'' \<notin> set ''skills''" "''dev'' \<noteq> []" "CHR ''/'' \<notin> set ''dev''"
    "[''tools'', ''lint'', ''SKILL.md''] \<noteq> []"
    "\<forall>p\<in>set [''tools'', ''lint'', ''SKILL.md'']. p \<noteq> [] \<and> CHR ''/'' \<notin> set p"
    "''tools/lint/SKILL.md'' = join_slash [''tools'', ''lint'', ''SKILL.md'']"
    "''blob'' = ''tree'' \<or> ''blob'' = ''blob''"
    "?url = ''https://github.com/'' @ ''acme'' @ ''/'' @ ''skills'' @ ''/'' @ ''blob'' @ ''/''
        @ ''dev'' @ ''/'' @ ''tools/lint/SKILL.md''"
    by simp_all
  have pn: "URL_pathname sample_platform ?url
      = Some (''/'' @ ''acme'' @ ''/'' @ ''skills'' @ ''/'' @ ''blob'' @ ''/'' @ ''dev'' @ ''/''
          @ ''tools/lint/SKILL.md'')"
    by (simp add: sample_platform_def sample_pathname_def startsWith_def)
  have e: "endsWith ''tools/lint/SKILL.md'' ''/SKILL.md''"
    by (simp add: endsWith_def)
  from parseSource_github_tree_url [OF h pn] e
  obtain P' where r: "parseSource sample_platform ?url
        = Inr (GitHub ''acme'' ''skills'' (Some ''dev'') (Some P'))"
    and p: "P' @ ''/SKILL.md'' = ''tools/lint'' @ ''/SKILL.md''"
    by auto
  from p have "P' = ''tools/lint''" by (rule append_same_eq [THEN iffD1])
  with r h(1-6) pn e show ?thesis by simp
qed

text \<open>
  C9, as the code has it. A string containing \<^verbatim>\<open>github.com\<close> that does not start with \<^verbatim>\<open>/\<close>,
  \<^verbatim>\<open>./\<close> or \<^verbatim>\<open>../\<close> is handled by \<open>parseGitHubUrl\<close> alone: when the \<^verbatim>\<open>URL\<close> constructor
  rejects the string the result is that \<^verbatim>\<open>TypeError\<close>, when the pathname has fewer than two
  non-empty segments it is "Invalid GitHub URL", otherwise it is a GitHub source; it is never
  a url source, a local source, or "Unable to parse source".
\<close>

theorem parseSource_github_com_routing:
  assumes "includes_str s ''github.com''"
    and "\<not> startsWith s ''/''" and "\<not> startsWith s ''./''" and "\<not> startsWith s ''../''"
  shows "parseSource pf s = parseGitHubUrl pf s
    \<and> (URL_pathname pf s = None \<longrightarrow> parseSource pf s = Inl (URLTypeError s))
    \<and> (\<forall>pn. URL_pathname pf s = Some pn \<and> length (filter (\<lambda>x. x \<noteq> []) (split_slash pn)) < 2
          \<longrightarrow> parseSource pf s = Inl (InvalidGitHubURL s))
    \<and> (\<forall>pn. URL_pathname pf s = Some pn \<and> 2 \<le> length (filter (\<lambda>x. x \<noteq> []) (split_slash pn))
          \<longrightarrow> (\<exists>own rep br p. parseSource pf s = Inr (GitHub own rep br p)))
    \<and> (\<forall>x. parseSource pf s \<noteq> Inl (UnableToParseSource x))
    \<and> (\<forall>x. parseSource pf s \<noteq> Inr (Url x))
    \<and> (\<forall>x. parseSource pf s \<noteq> Inr (Local x))"
proof -
  have eq: "parseSource pf s = parseGitHubUrl pf s"
    using assms by (simp add: parseSource_def)
  show ?thesis
    unfolding eq
    by (auto simp add: parseGitHubUrl_def Let_def split: option.splits)
qed

theorem parseSource_github_com_routing_witness:
  "includes_str ''github.com/acme/skills'' ''github.com''
   \<and> \<not> startsWith ''github.com/acme/skills'' ''/''
   \<and> URL_pathname sample_platform ''github.com/acme/skills'' = None
   \<and> parseSource sample_platform ''github.com/acme/skills''
       = Inl (URLTypeError ''github.com/acme/skills'')
   \<and> includes_str ''https://github.com/acme'' ''github.com''
   \<and> URL_pathname sample_platform ''https://github.com/acme'' = Some ''/acme''
   \<and> parseSource sample_platform ''https://github.com/acme''
       = Inl (InvalidGitHubURL ''https://github.com/acme'')"
proof -
  let ?a = "''github.com/acme/skills''" and ?b = "''https://github.com/acme''"
  have a: "includes_str ?a ''github.com''" "\<not> startsWith ?a ''/''"
    "\<not> startsWith ?a ''./''" "\<not> startsWith ?a ''../''"
    by (simp_all add: startsWith_def)
  have b: "includes_str ?b ''github.com''" "\<not> startsWith ?b ''/''"
    "\<not> startsWith ?b ''./''" "\<not> startsWith ?b ''../''"
    by (simp_all add: startsWith_def)
  have pa: "URL_pathname sample_platform ?a = None"
    and pb: "URL_pathname sample_platform ?b = Some ''/acme''"
    by (simp_all add: sample_platform_def sample_pathname_def startsWith_def)
  have lb: "length (filter (\<lambda>x. x \<noteq> []) (split_slash ''/acme'')) < 2"
    by simp
  show ?thesis
    using a(1,2) b(1) pa pb lb
      parseSource_github_com_routing [OF a, of sample_platform]
      parseSource_github_com_routing [OF b, of sample_platform]
    by blast
qed

text \<open>
  C9 as stated fails on a string with a local prefix: the check for \<^verbatim>\<open>/\<close>, \<^verbatim>\<open>./\<close> and \<^verbatim>\<open>../\<close>
  comes first, so \<^verbatim>\<open>./github.com/acme/skills\<close> contains \<^verbatim>\<open>github.com\<close> and is a local source.
\<close>

theorem parseSource_github_com_local_counterexample:
  "includes_str ''./github.com/acme/skills'' ''github.com''
   \<and> parseSource sample_platform ''./github.com/acme/skills''
       = Inr (Local ''./github.com/acme/skills'')"
  by (simp add: parseSource_def startsWith_def)


text \<open>
  Every GitHub source that \<open>parseSource\<close> returns has an owner and a repository name without
  a slash: both are pieces of a split at the slashes.
\<close>

lemma split_slash_slash_free: "x \<in> set (split_slash s) \<Longrightarrow> CHR ''/'' \<notin> set x"
proof (induction s arbitrary: x)
  case Nil
  then show ?case by simp
next
  case (Cons c cs)
  show ?case
  proof (cases "c = CHR ''/''")
    case True
    with Cons show ?thesis by auto
  next
    case False
    obtain y ys where sp: "split_slash cs = y # ys"
      using split_slash_nonempty[of cs] by (cases "split_slash cs") auto
    with False Cons.prems have "x = c # y \<or> x \<in> set ys" by auto
    then show ?thesis
    proof
      assume "x = c # y"
      moreover have "CHR ''/'' \<notin> set y" using Cons.IH[of y] sp by simp
      ultimately show ?thesis using False by auto
    next
      assume "x \<in> set ys"
      then show ?thesis using Cons.IH[of x] sp by simp
    qed
  qed
qed

lemma split_slash_length: "CHR ''/'' \<in> set s \<Longrightarrow> 2 \<le> length (split_slash s)"
proof (induction s)
  case Nil
  then show ?case by simp
next
  case (Cons c cs)
  show ?case
  proof (cases "c = CHR ''/''")
    case True
    then show ?thesis using split_slash_nonempty[of cs] by (cases "split_slash cs") auto
  next
    case False
    with Cons show ?thesis by (auto split: list.splits)
  qed
qed

lemma dropWhile_slash_in_set:
  "dropWhile P s = CHR ''/'' # t \<Longrightarrow> CHR ''/'' \<in> set s"
  by (metis list.set_intros(1) set_dropWhileD)

lemma shorthand_has_two_parts:
  assumes "matches_owner_repo s \<or> matches_owner_repo_path s"
  shows "2 \<le> length (split_slash s)"
proof -
  have "\<exists>t. dropWhile word_or_hyphen s = CHR ''/'' # t"
    using assms
    by (cases "dropWhile word_or_hyphen s")
      (auto simp add: matches_owner_repo_def matches_owner_repo_path_def Let_def)
  then obtain t where "dropWhile word_or_hyphen s = CHR ''/'' # t" ..
  then have "CHR ''/'' \<in> set s" by (rule dropWhile_slash_in_set)
  then show ?thesis by (rule split_slash_length)
qed

lemma parseGitHubUrl_segments:
  assumes "parseGitHubUrl pf s = Inr (GitHub own rep br p)"
  shows "CHR ''/'' \<notin> set own \<and> CHR ''/'' \<notin> set rep"
proof -
  from assms obtain pn where pn: "URL_pathname pf s = Some pn"
    by (auto simp: parseGitHubUrl_def split: option.splits)
  let ?parts = "filter (\<lambda>x. x \<noteq> []) (split_slash pn)"
  from assms pn have len: "2 \<le> length ?parts" and o: "own = ?parts ! 0" and r: "rep = ?parts ! 1"
    by (auto simp: parseGitHubUrl_def Let_def split: if_splits)
  have l0: "0 < length ?parts" and l1: "1 < length ?parts" using len by linarith+
  have "?parts ! 0 \<in> set ?parts" using l0 by (rule nth_mem)
  moreover have "?parts ! 1 \<in> set ?parts" using l1 by (rule nth_mem)
  moreover have "set ?parts \<subseteq> set (split_slash pn)" by (rule filter_is_subset)
  ultimately have "own \<in> set (split_slash pn) \<and> rep \<in> set (split_slash pn)"
    unfolding o r by blast
  then show ?thesis by (auto dest: split_slash_slash_free)
qed

lemma parseSource_github_segments:
  assumes "parseSource pf s = Inr (GitHub own rep br p)"
  shows "CHR ''/'' \<notin> set own \<and> CHR ''/'' \<notin> set rep"
proof -
  have sh: "matches_owner_repo s \<or> matches_owner_repo_path s \<Longrightarrow>
      CHR ''/'' \<notin> set (split_slash s ! 0) \<and> CHR ''/'' \<notin> set (split_slash s ! 1)"
  proof -
    assume "matches_owner_repo s \<or> matches_owner_repo_path s"
    then have "2 \<le> length (split_slash s)" by (rule shorthand_has_two_parts)
    then have "split_slash s ! 0 \<in> set (split_slash s)" "split_slash s ! 1 \<in> set (split_slash s)"
      by (auto intro!: nth_mem)
    then show ?thesis by (auto dest: split_slash_slash_free)
  qed
  from assms show ?thesis
    using sh parseGitHubUrl_segments[of pf s own rep br p]
    by (auto simp: parseSource_def Let_def split: if_splits)
qed

section \<open>Properties of the fetchers\<close>

lemmas sample_eval =
  sample_platform_def sample_fetch_def sample_ok_def sample_readFile_def sample_pathname_def
  fetchSkill_def fetchFromGitHub_def fetchFromUrl_def fetchFromLocal_def derive_id_def
  github_rawUrl_def github_filePath_def or_else_def pop_def startsWith_def Let_def

lemma replace_first_skip:
  "CHR ''/'' \<notin> set a \<Longrightarrow>
     replace_first (a @ b) (CHR ''/'' # pat) rep = a @ replace_first b (CHR ''/'' # pat) rep"
  by (induction a) (auto simp: startsWith_def)

lemma replace_first_hit: "pat \<noteq> [] \<Longrightarrow> replace_first (pat @ b) pat rep = rep @ b"
  by (cases pat) (auto simp: startsWith_def)

lemma replace_first_miss:
  "\<not> startsWith (c # cs) pat \<Longrightarrow> replace_first (c # cs) pat rep = c # replace_first cs pat rep"
  by simp

lemma first_segment_eq:
  assumes "CHR ''/'' \<notin> set x" "CHR ''/'' \<notin> set y" "x @ CHR ''/'' # r = y @ CHR ''/'' # t"
  shows "x = y"
proof -
  have "split_slash (x @ CHR ''/'' # r) = split_slash (y @ CHR ''/'' # t)"
    using assms(3) by simp
  then show ?thesis using assms(1,2) by (simp add: split_slash_append)
qed

lemma startsWith_slash_main:
  assumes "CHR ''/'' \<notin> set x"
  shows "startsWith (CHR ''/'' # x @ CHR ''/'' # r) ''/main/'' \<longleftrightarrow> x = ''main''"
proof
  assume "startsWith (CHR ''/'' # x @ CHR ''/'' # r) ''/main/''"
  then obtain b where "CHR ''/'' # x @ CHR ''/'' # r = ''/main/'' @ b"
    by (auto simp: startsWith_iff)
  then have "x @ CHR ''/'' # r = ''main'' @ CHR ''/'' # b" by simp
  then show "x = ''main''"
    using assms by (intro first_segment_eq[of x "''main''" r b]) simp_all
next
  assume "x = ''main''"
  then show "startsWith (CHR ''/'' # x @ CHR ''/'' # r) ''/main/''"
    by (simp add: startsWith_def)
qed

lemma replace_first_raw_host:
  "replace_first (raw_host @ CHR ''/'' # t) ''/main/'' rep
     = raw_host @ replace_first (CHR ''/'' # t) ''/main/'' rep"
  by (simp add: raw_host_def startsWith_def)

lemma github_rawUrl_alt:
  "github_rawUrl own rep br f = raw_host @ CHR ''/'' # own @ CHR ''/'' # rep @ CHR ''/'' # br @ CHR ''/'' # f"
  by (simp add: github_rawUrl_def raw_host_def)

lemma masterUrl_value:
  assumes "CHR ''/'' \<notin> set own" "CHR ''/'' \<notin> set rep"
  shows "replace_first (github_rawUrl own rep ''main'' f) ''/main/'' ''/master/'' =
    (if own = ''main'' then raw_host @ ''/master/'' @ rep @ ''/main/'' @ f
     else if rep = ''main'' then raw_host @ ''/'' @ own @ ''/master/'' @ ''main/'' @ f
     else github_rawUrl own rep ''master'' f)"
proof -
  let ?pat = "''/main/''" and ?rep = "''/master/''"
  let ?t2 = "CHR ''/'' # rep @ CHR ''/'' # ''main'' @ CHR ''/'' # f"
  let ?t1 = "CHR ''/'' # own @ ?t2"
  have raw: "github_rawUrl own rep ''main'' f = raw_host @ ?t1"
    by (simp add: github_rawUrl_alt)
  have step0: "replace_first (raw_host @ ?t1) ?pat ?rep = raw_host @ replace_first ?t1 ?pat ?rep"
    by (rule replace_first_raw_host)
  show ?thesis
  proof (cases "own = ''main''")
    case True
    have "?t1 = ?pat @ rep @ ''/main/'' @ f" using True by simp
    then have "replace_first ?t1 ?pat ?rep = ?rep @ rep @ ''/main/'' @ f"
      using replace_first_hit[of ?pat "rep @ ''/main/'' @ f" ?rep] by simp
    then show ?thesis using True unfolding raw step0 by simp
  next
    case False
    then have "\<not> startsWith ?t1 ?pat"
      using startsWith_slash_main[OF assms(1), of "rep @ CHR ''/'' # ''main'' @ CHR ''/'' # f"] by simp
    then have s1: "replace_first ?t1 ?pat ?rep = CHR ''/'' # replace_first (own @ ?t2) ?pat ?rep"
      by (rule replace_first_miss)
    have s2: "replace_first (own @ ?t2) ?pat ?rep = own @ replace_first ?t2 ?pat ?rep"
      using replace_first_skip[OF assms(1), of ?t2 "''main/''" ?rep] by simp
    show ?thesis
    proof (cases "rep = ''main''")
      case True
      have "?t2 = ?pat @ ''main/'' @ f" using True by simp
      then have "replace_first ?t2 ?pat ?rep = ?rep @ ''main/'' @ f"
        using replace_first_hit[of ?pat "''main/'' @ f" ?rep] by simp
      then show ?thesis using True False unfolding raw step0 s1 s2 by simp
    next
      case rep: False
      let ?t3 = "CHR ''/'' # ''main'' @ CHR ''/'' # f"
      have "\<not> startsWith ?t2 ?pat"
        using rep startsWith_slash_main[OF assms(2), of "''main'' @ CHR ''/'' # f"] by simp
      then have s3: "replace_first ?t2 ?pat ?rep = CHR ''/'' # replace_first (rep @ ?t3) ?pat ?rep"
        by (rule replace_first_miss)
      have s4: "replace_first (rep @ ?t3) ?pat ?rep = rep @ replace_first ?t3 ?pat ?rep"
        using replace_first_skip[OF assms(2), of ?t3 "''main/''" ?rep] by simp
      have "?t3 = ?pat @ f" by simp
      then have s5: "replace_first ?t3 ?pat ?rep = ?rep @ f"
        using replace_first_hit[of ?pat f ?rep] by simp
      show ?thesis using False rep unfolding raw step0 s1 s2 s3 s4 s5
        by (simp add: github_rawUrl_alt)
    qed
  qed
qed

lemma masterUrl_correct_iff:
  assumes "CHR ''/'' \<notin> set own" "CHR ''/'' \<notin> set rep"
  shows "replace_first (github_rawUrl own rep ''main'' f) ''/main/'' ''/master/''
           = github_rawUrl own rep ''master'' f
         \<longleftrightarrow> own \<noteq> ''main'' \<and> rep \<noteq> ''main''"
  unfolding masterUrl_value[OF assms]
  by (auto simp: github_rawUrl_alt)


lemma take_long_prefix: "n \<le> length xs \<Longrightarrow> take n (xs @ ys) = take n xs"
  by simp

lemma replace_first_first_occurrence:
  assumes "pat \<noteq> []" "\<not> includes_str (a @ butlast pat) pat"
  shows "replace_first (a @ pat @ b) pat rep = a @ rep @ b"
  using assms(2)
proof (induction a)
  case Nil
  then show ?case using assms(1) by (simp add: replace_first_hit)
next
  case (Cons c a)
  from Cons.prems have ns: "\<not> startsWith (c # a @ butlast pat) pat"
    and ni: "\<not> includes_str (a @ butlast pat) pat" by auto
  have e: "c # a @ pat @ b = (c # a @ butlast pat) @ last pat # b"
    using append_butlast_last_id[OF assms(1)]
    by (metis append.assoc append_Cons append_Nil)
  have t: "take (length pat) ((c # a @ butlast pat) @ last pat # b)
      = take (length pat) (c # a @ butlast pat)"
    by (rule take_long_prefix) simp
  have "startsWith (c # a @ pat @ b) pat = startsWith (c # a @ butlast pat) pat"
    unfolding startsWith_def e t ..
  then have "\<not> startsWith (c # a @ pat @ b) pat" using ns by simp
  then show ?case using Cons.IH[OF ni] by simp
qed

lemma fetchSkill_GitHub_events:
  "snd (fetchSkill pf (GitHub own rep br p)) = snd (fetchFromGitHub pf own rep br p)"
  by (cases "fetchFromGitHub pf own rep br p")
    (simp add: fetchSkill_def derive_id_def Let_def split: sum.splits)

lemma fetchSkill_GitHub_error:
  "fst (fetchFromGitHub pf own rep br p) = Inl e \<Longrightarrow>
     fst (fetchSkill pf (GitHub own rep br p)) = Inl e"
  by (cases "fetchFromGitHub pf own rep br p")
    (simp add: fetchSkill_def Let_def split: sum.splits)

lemma fetchSkill_GitHub_content:
  "fst (fetchFromGitHub pf own rep br p) = Inr c \<Longrightarrow>
     \<exists>sk. fst (fetchSkill pf (GitHub own rep br p)) = Inr sk \<and> skill_content sk = c"
  by (cases "fetchFromGitHub pf own rep br p")
    (simp add: fetchSkill_def derive_id_def Let_def split: sum.splits)

lemma fetchSkill_Local_events:
  "snd (fetchSkill pf (Local p)) = snd (fetchFromLocal pf p)"
  by (simp add: fetchSkill_def derive_id_def Let_def split: prod.splits sum.splits)

text \<open>
  C7. For a local source \<open>fetchSkill\<close> reads \<^verbatim>\<open><path>/SKILL.md\<close> first (the path resolved by
  \<^verbatim>\<open>path.resolve\<close>, joined with \<^verbatim>\<open>SKILL.md\<close>); when that read succeeds nothing else is read;
  when it fails the path itself is read, and if this second read succeeds its content is
  returned and no error is surfaced; when both fail the error is that of the second read.
\<close>

theorem fetchSkill_local_probe:
  fixes pf :: platform and p :: string
  defines "resolvedPath \<equiv> path_resolve pf p"
  defines "skillPath \<equiv> path_join pf (path_resolve pf p) ''SKILL.md''"
  shows "(\<forall>c. readFile pf skillPath = Some c \<longrightarrow>
            (\<exists>sk. fetchSkill pf (Local p) = (Inr sk, [ReadFile skillPath]) \<and> skill_content sk = c))
    \<and> (\<forall>c. readFile pf skillPath = None \<and> readFile pf resolvedPath = Some c \<longrightarrow>
            (\<exists>sk. fetchSkill pf (Local p) = (Inr sk, [ReadFile skillPath, ReadFile resolvedPath])
                  \<and> skill_content sk = c))
    \<and> (readFile pf skillPath = None \<and> readFile pf resolvedPath = None \<longrightarrow>
            fetchSkill pf (Local p)
              = (Inl (ReadFileFailed resolvedPath), [ReadFile skillPath, ReadFile resolvedPath]))
    \<and> hd (snd (fetchSkill pf (Local p))) = ReadFile skillPath"
  by (auto simp add: fetchSkill_def fetchFromLocal_def derive_id_def Let_def
      resolvedPath_def skillPath_def split: option.splits)

theorem fetchSkill_local_probe_witness:
  "readFile sample_platform ''/work/notes.md/SKILL.md'' = None
   \<and> readFile sample_platform ''/work/notes.md'' = Some ''# notes''
   \<and> (\<exists>sk. fetchSkill sample_platform (Local ''notes.md'')
          = (Inr sk, [ReadFile ''/work/notes.md/SKILL.md'', ReadFile ''/work/notes.md''])
        \<and> skill_content sk = ''# notes'')"
proof -
  have r: "path_resolve sample_platform ''notes.md'' = ''/work/notes.md''"
    and j: "path_join sample_platform ''/work/notes.md'' ''SKILL.md'' = ''/work/notes.md/SKILL.md''"
    by (simp_all add: sample_platform_def startsWith_def)
  have a: "readFile sample_platform ''/work/notes.md/SKILL.md'' = None"
    and b: "readFile sample_platform ''/work/notes.md'' = Some ''# notes''"
    by (simp_all add: sample_platform_def sample_readFile_def)
  show ?thesis
    using a b fetchSkill_local_probe [of sample_platform "''notes.md''"]
    unfolding r j by blast
qed


text \<open>
  C10. When the first response is not ok and the branch is \<^verbatim>\<open>main\<close>, the second request goes
  to the raw-content URL with its first \<^verbatim>\<open>/main/\<close> replaced by \<^verbatim>\<open>/master/\<close>. For an owner and
  a repository name without a slash, this is the URL of the same file on branch \<^verbatim>\<open>master\<close>
  exactly when neither the owner nor the repository is named \<^verbatim>\<open>main\<close>.
\<close>

theorem fetchFromGitHub_fallback_url:
  assumes "fetch pf (github_rawUrl own rep ''main'' (github_filePath path_opt)) = Some r"
    and "\<not> ok r"
    and "or_else br_opt ''main'' = ''main''"
    and "CHR ''/'' \<notin> set own" and "CHR ''/'' \<notin> set rep"
  shows "snd (fetchFromGitHub pf own rep br_opt path_opt)
           = [HttpGet (github_rawUrl own rep ''main'' (github_filePath path_opt)),
              HttpGet (replace_first (github_rawUrl own rep ''main'' (github_filePath path_opt))
                         ''/main/'' ''/master/'')]
    \<and> (replace_first (github_rawUrl own rep ''main'' (github_filePath path_opt))
            ''/main/'' ''/master/''
          = github_rawUrl own rep ''master'' (github_filePath path_opt)
        \<longleftrightarrow> own \<noteq> ''main'' \<and> rep \<noteq> ''main'')"
proof
  show "snd (fetchFromGitHub pf own rep br_opt path_opt)
           = [HttpGet (github_rawUrl own rep ''main'' (github_filePath path_opt)),
              HttpGet (replace_first (github_rawUrl own rep ''main'' (github_filePath path_opt))
                         ''/main/'' ''/master/'')]"
    using assms(1,2,3)
    by (simp add: fetchFromGitHub_def Let_def split: option.splits)
  show "replace_first (github_rawUrl own rep ''main'' (github_filePath path_opt))
            ''/main/'' ''/master/''
          = github_rawUrl own rep ''master'' (github_filePath path_opt)
        \<longleftrightarrow> own \<noteq> ''main'' \<and> rep \<noteq> ''main''"
    using assms(4,5) by (rule masterUrl_correct_iff)
qed

theorem fetchFromGitHub_fallback_url_witness:
  "fetch sample_platform (github_rawUrl ''acme'' ''skills'' ''main'' (github_filePath None))
     = Some \<lparr>ok = False, status = 404, text_body = ''404: Not Found''\<rparr>
   \<and> or_else None ''main'' = ''main''
   \<and> CHR ''/'' \<notin> set ''acme'' \<and> CHR ''/'' \<notin> set ''skills''
   \<and> snd (fetchFromGitHub sample_platform ''acme'' ''skills'' None None)
       = [HttpGet ''https://raw.githubusercontent.com/acme/skills/main/SKILL.md'',
          HttpGet ''https://raw.githubusercontent.com/acme/skills/master/SKILL.md'']
   \<and> ''acme'' \<noteq> ''main'' \<and> ''skills'' \<noteq> ''main''"
proof -
  have f: "fetch sample_platform (github_rawUrl ''acme'' ''skills'' ''main'' (github_filePath None))
     = Some \<lparr>ok = False, status = 404, text_body = ''404: Not Found''\<rparr>"
    by (simp add: sample_eval)
  have n: "\<not> ok \<lparr>ok = False, status = 404, text_body = ''404: Not Found''\<rparr>" by simp
  have o: "or_else None ''main'' = ''main''" by (simp add: or_else_def)
  have s: "CHR ''/'' \<notin> set ''acme''" "CHR ''/'' \<notin> set ''skills''" by simp_all
  have r: "github_rawUrl ''acme'' ''skills'' ''main'' (github_filePath None)
      = ''https://raw.githubusercontent.com/acme/skills/main/SKILL.md''"
    and m: "github_rawUrl ''acme'' ''skills'' ''master'' (github_filePath None)
      = ''https://raw.githubusercontent.com/acme/skills/master/SKILL.md''"
    by (simp_all add: github_rawUrl_def github_filePath_def)
  have ne: "''acme'' \<noteq> ''main''" "''skills'' \<noteq> ''main''" by simp_all
  from fetchFromGitHub_fallback_url [OF f n o s] ne
  have "snd (fetchFromGitHub sample_platform ''acme'' ''skills'' None None)
       = [HttpGet ''https://raw.githubusercontent.com/acme/skills/main/SKILL.md'',
          HttpGet ''https://raw.githubusercontent.com/acme/skills/master/SKILL.md'']"
    unfolding r m by simp
  with f o s ne show ?thesis by blast
qed

lemma fetchSkill_github_requests:
  fixes pf :: platform
  defines "raw own rep br_opt path_opt \<equiv>
    github_rawUrl own rep (or_else br_opt ''main'') (github_filePath path_opt)"
  shows "snd (fetchSkill pf (GitHub own rep br_opt path_opt))
      = (if (\<exists>r. fetch pf (raw own rep br_opt path_opt) = Some r \<and> \<not> ok r)
            \<and> or_else br_opt ''main'' = ''main''
         then [HttpGet (raw own rep br_opt path_opt),
               HttpGet (replace_first (raw own rep br_opt path_opt) ''/main/'' ''/master/'')]
         else [HttpGet (raw own rep br_opt path_opt)])
    \<and> (\<forall>b r. br_opt = Some b \<and> b \<noteq> [] \<and> b \<noteq> ''main''
            \<and> fetch pf (raw own rep br_opt path_opt) = Some r \<and> \<not> ok r
          \<longrightarrow> fetchSkill pf (GitHub own rep br_opt path_opt)
                = (Inl (FailedToFetchFromGitHub (status r)), [HttpGet (raw own rep br_opt path_opt)]))
    \<and> (\<forall>r m. fetch pf (raw own rep br_opt path_opt) = Some r \<and> \<not> ok r
            \<and> or_else br_opt ''main'' = ''main''
            \<and> fetch pf (replace_first (raw own rep br_opt path_opt) ''/main/'' ''/master/'') = Some m
          \<longrightarrow> (ok m \<longrightarrow> (\<exists>sk. fst (fetchSkill pf (GitHub own rep br_opt path_opt)) = Inr sk
                          \<and> skill_content sk = text_body m))
            \<and> (\<not> ok m \<longrightarrow> fst (fetchSkill pf (GitHub own rep br_opt path_opt))
                = Inl (FailedToFetchFromGitHub (status r))))"
  unfolding raw_def
  by (auto simp add: fetchSkill_def fetchFromGitHub_def derive_id_def Let_def or_else_def
      split: option.splits)

text \<open>
  C2, as the code has it. For an owner and a repository name without a slash and other than
  \<^verbatim>\<open>main\<close>, \<open>fetchSkill\<close> on a GitHub source falls back to the \<^verbatim>\<open>master\<close> branch once, exactly when the first response is not
  ok and the branch in effect (the given one, or \<^verbatim>\<open>main\<close> when it is absent or empty) is
  \<^verbatim>\<open>main\<close>: the second request is the URL of the same file on \<^verbatim>\<open>master\<close>, its content is
  returned when it is ok, and otherwise the error carries the status of the first response.
  For every owner and repository, no second request is made when the first fetch is ok or
  rejected or the branch in effect is not \<^verbatim>\<open>main\<close>; and for an explicit non-empty branch other
  than \<^verbatim>\<open>main\<close> a response that is not ok is fatal at once, the error carrying the HTTP status
  of that response.
\<close>

theorem fetchSkill_github_fallback:
  fixes pf :: platform
  defines "raw own rep br_opt path_opt \<equiv>
    github_rawUrl own rep (or_else br_opt ''main'') (github_filePath path_opt)"
  defines "master own rep path_opt \<equiv> github_rawUrl own rep ''master'' (github_filePath path_opt)"
  shows "(CHR ''/'' \<notin> set own \<and> CHR ''/'' \<notin> set rep \<and> own \<noteq> ''main'' \<and> rep \<noteq> ''main'' \<longrightarrow>
        snd (fetchSkill pf (GitHub own rep br_opt path_opt))
          = (if (\<exists>r. fetch pf (raw own rep br_opt path_opt) = Some r \<and> \<not> ok r)
                \<and> or_else br_opt ''main'' = ''main''
             then [HttpGet (raw own rep br_opt path_opt), HttpGet (master own rep path_opt)]
             else [HttpGet (raw own rep br_opt path_opt)])
        \<and> (\<forall>r m. fetch pf (raw own rep br_opt path_opt) = Some r \<and> \<not> ok r
              \<and> or_else br_opt ''main'' = ''main''
              \<and> fetch pf (master own rep path_opt) = Some m
            \<longrightarrow> (ok m \<longrightarrow> (\<exists>sk. fst (fetchSkill pf (GitHub own rep br_opt path_opt)) = Inr sk
                            \<and> skill_content sk = text_body m))
              \<and> (\<not> ok m \<longrightarrow> fst (fetchSkill pf (GitHub own rep br_opt path_opt))
                    = Inl (FailedToFetchFromGitHub (status r)))))
    \<and> (\<not> ((\<exists>r. fetch pf (raw own rep br_opt path_opt) = Some r \<and> \<not> ok r)
            \<and> or_else br_opt ''main'' = ''main'')
        \<longrightarrow> snd (fetchSkill pf (GitHub own rep br_opt path_opt))
              = [HttpGet (raw own rep br_opt path_opt)])
    \<and> (\<forall>b r. br_opt = Some b \<and> b \<noteq> [] \<and> b \<noteq> ''main''
            \<and> fetch pf (raw own rep br_opt path_opt) = Some r \<and> \<not> ok r
          \<longrightarrow> fetchSkill pf (GitHub own rep br_opt path_opt)
                = (Inl (FailedToFetchFromGitHub (status r)), [HttpGet (raw own rep br_opt path_opt)]))"
proof -
  note req = fetchSkill_github_requests [of pf own rep br_opt path_opt]
  have mu: "replace_first (raw own rep br_opt path_opt) ''/main/'' ''/master/''
      = master own rep path_opt"
    if "CHR ''/'' \<notin> set own" "CHR ''/'' \<notin> set rep" "own \<noteq> ''main''" "rep \<noteq> ''main''"
      "or_else br_opt ''main'' = ''main''"
    using that masterUrl_correct_iff [of own rep "github_filePath path_opt"]
    by (simp add: raw_def master_def)
  have a: "snd (fetchSkill pf (GitHub own rep br_opt path_opt))
          = (if (\<exists>r. fetch pf (raw own rep br_opt path_opt) = Some r \<and> \<not> ok r)
                \<and> or_else br_opt ''main'' = ''main''
             then [HttpGet (raw own rep br_opt path_opt), HttpGet (master own rep path_opt)]
             else [HttpGet (raw own rep br_opt path_opt)])"
    if h: "CHR ''/'' \<notin> set own" "CHR ''/'' \<notin> set rep" "own \<noteq> ''main''" "rep \<noteq> ''main''"
  proof (cases "or_else br_opt ''main'' = ''main''")
    case True
    show ?thesis
      using req [THEN conjunct1] unfolding raw_def [symmetric] mu [OF h True] .
  next
    case False
    then show ?thesis
      using req [THEN conjunct1] unfolding raw_def [symmetric] by simp
  qed
  have b: "(ok m \<longrightarrow> (\<exists>sk. fst (fetchSkill pf (GitHub own rep br_opt path_opt)) = Inr sk
                            \<and> skill_content sk = text_body m))
              \<and> (\<not> ok m \<longrightarrow> fst (fetchSkill pf (GitHub own rep br_opt path_opt))
                    = Inl (FailedToFetchFromGitHub (status r)))"
    if h: "CHR ''/'' \<notin> set own" "CHR ''/'' \<notin> set rep" "own \<noteq> ''main''" "rep \<noteq> ''main''"
      and f: "fetch pf (raw own rep br_opt path_opt) = Some r" "\<not> ok r"
      and o: "or_else br_opt ''main'' = ''main''"
      and m: "fetch pf (master own rep path_opt) = Some m"
    for r m
  proof -
    have m': "fetch pf (replace_first (raw own rep br_opt path_opt) ''/main/'' ''/master/'') = Some m"
      using m by (simp only: mu [OF h o])
    show ?thesis
      by (rule req [THEN conjunct2, THEN conjunct2, unfolded raw_def [symmetric], rule_format])
        (intro conjI f o m')
  qed
  have c: "snd (fetchSkill pf (GitHub own rep br_opt path_opt))
              = [HttpGet (raw own rep br_opt path_opt)]"
    if "\<not> ((\<exists>r. fetch pf (raw own rep br_opt path_opt) = Some r \<and> \<not> ok r)
            \<and> or_else br_opt ''main'' = ''main'')"
    using that req [THEN conjunct1] unfolding raw_def [symmetric] by simp
  have d: "\<forall>b r. br_opt = Some b \<and> b \<noteq> [] \<and> b \<noteq> ''main''
            \<and> fetch pf (raw own rep br_opt path_opt) = Some r \<and> \<not> ok r
          \<longrightarrow> fetchSkill pf (GitHub own rep br_opt path_opt)
                = (Inl (FailedToFetchFromGitHub (status r)), [HttpGet (raw own rep br_opt path_opt)])"
    using req [THEN conjunct2, THEN conjunct1] unfolding raw_def [symmetric] .
  show ?thesis
    using a b c d by blast
qed


theorem fetchSkill_github_fallback_witness:
  "CHR ''/'' \<notin> set ''acme'' \<and> CHR ''/'' \<notin> set ''skills'' \<and> ''acme'' \<noteq> ''main''
   \<and> ''skills'' \<noteq> ''main''
   \<and> fetch sample_platform ''https://raw.githubusercontent.com/acme/skills/main/SKILL.md''
       = Some \<lparr>ok = False, status = 404, text_body = ''404: Not Found''\<rparr>
   \<and> or_else (Some ''main'') ''main'' = ''main''
   \<and> snd (fetchSkill sample_platform (GitHub ''acme'' ''skills'' (Some ''main'') None))
       = [HttpGet ''https://raw.githubusercontent.com/acme/skills/main/SKILL.md'',
          HttpGet ''https://raw.githubusercontent.com/acme/skills/master/SKILL.md'']
   \<and> fetch sample_platform ''https://raw.githubusercontent.com/acme/skills/dev/SKILL.md''
       = Some \<lparr>ok = False, status = 404, text_body = ''404: Not Found''\<rparr>
   \<and> fetchSkill sample_platform (GitHub ''acme'' ''skills'' (Some ''dev'') None)
       = (Inl (FailedToFetchFromGitHub 404),
          [HttpGet ''https://raw.githubusercontent.com/acme/skills/dev/SKILL.md''])"
proof -
  let ?r = "\<lparr>ok = False, status = 404, text_body = ''404: Not Found''\<rparr>"
  let ?main = "''https://raw.githubusercontent.com/acme/skills/main/SKILL.md''"
  let ?master = "''https://raw.githubusercontent.com/acme/skills/master/SKILL.md''"
  let ?dev = "''https://raw.githubusercontent.com/acme/skills/dev/SKILL.md''"
  note t = fetchSkill_github_fallback [where pf = sample_platform and own = "''acme''"
      and rep = "''skills''" and path_opt = None]
  have h: "CHR ''/'' \<notin> set ''acme'' \<and> CHR ''/'' \<notin> set ''skills'' \<and> ''acme'' \<noteq> ''main''
      \<and> ''skills'' \<noteq> ''main''"
    by simp
  have um: "github_rawUrl ''acme'' ''skills'' (or_else (Some ''main'') ''main'')
        (github_filePath None) = ?main"
    and ud: "github_rawUrl ''acme'' ''skills'' (or_else (Some ''dev'') ''main'')
        (github_filePath None) = ?dev"
    and ua: "github_rawUrl ''acme'' ''skills'' ''master'' (github_filePath None) = ?master"
    by (simp_all add: github_rawUrl_def github_filePath_def or_else_def)
  have fm: "fetch sample_platform ?main = Some ?r" and fd: "fetch sample_platform ?dev = Some ?r"
    by (simp_all add: sample_platform_def sample_fetch_def)
  have o: "or_else (Some ''main'') ''main'' = ''main''" by (simp add: or_else_def)
  have nok: "\<not> ok ?r" and st: "status ?r = 404" by simp_all
  have cond: "(\<exists>r. fetch sample_platform ?main = Some r \<and> \<not> ok r)
      \<and> or_else (Some ''main'') ''main'' = ''main''"
    using fm nok o by blast
  have a: "snd (fetchSkill sample_platform (GitHub ''acme'' ''skills'' (Some ''main'') None))
      = [HttpGet ?main, HttpGet ?master]"
    using t [where br_opt = "Some ''main''", THEN conjunct1, rule_format, OF h, THEN conjunct1]
    unfolding um ua if_P [OF cond] .
  have b: "fetchSkill sample_platform (GitHub ''acme'' ''skills'' (Some ''dev'') None)
      = (Inl (FailedToFetchFromGitHub (status ?r)), [HttpGet ?dev])"
    using t [where br_opt = "Some ''dev''", THEN conjunct2, THEN conjunct2, rule_format,
        of "''dev''" ?r]
    unfolding ud using fd nok by simp
  show ?thesis
    using h fm o a fd b [unfolded st] by (intro conjI) (elim conjE, assumption)+
qed

text \<open>
  C2 as stated fails on an explicit branch \<^verbatim>\<open>main\<close>: the fallback is attempted (and here
  succeeds), because the code compares the branch in effect with \<^verbatim>\<open>main\<close> and does not record
  whether it was given.
\<close>

theorem fetchSkill_explicit_main_counterexample:
  "parseSource sample_platform ''https://github.com/acme/skills/tree/main''
     = Inr (GitHub ''acme'' ''skills'' (Some ''main'') None)
   \<and> fetchSkill sample_platform (GitHub ''acme'' ''skills'' (Some ''main'') None)
     = (Inr \<lparr>skill_id = ''skills'', skill_name = ''skills'', skill_description = [],
             skill_content = ''# skills of acme, on master'',
             skill_source = GitHub ''acme'' ''skills'' (Some ''main'') None\<rparr>,
        [HttpGet ''https://raw.githubusercontent.com/acme/skills/main/SKILL.md'',
         HttpGet ''https://raw.githubusercontent.com/acme/skills/master/SKILL.md''])"
  by (simp add: sample_eval parseSource_def parseGitHubUrl_def nth_opt_def)

text \<open>
  C1 on the owner \<^verbatim>\<open>main\<close>: the main-branch URL answers 404 and the master-branch URL of the
  same repository answers 200, but the fallback request goes to
  \<^verbatim>\<open>.../master/skills/main/SKILL.md\<close> (the first \<^verbatim>\<open>/main/\<close> is the owner), and the fetch fails.
\<close>

theorem fetchSkill_owner_main_fallback_fails:
  "parseSource sample_platform ''main/skills'' = Inr (GitHub ''main'' ''skills'' None None)
   \<and> fetch sample_platform ''https://raw.githubusercontent.com/main/skills/main/SKILL.md''
     = Some \<lparr>ok = False, status = 404, text_body = ''404: Not Found''\<rparr>
   \<and> fetch sample_platform ''https://raw.githubusercontent.com/main/skills/master/SKILL.md''
     = Some \<lparr>ok = True, status = 200, text_body = ''# skills of main, on master''\<rparr>
   \<and> fetchSkill sample_platform (GitHub ''main'' ''skills'' None None)
     = (Inl (FailedToFetchFromGitHub 404),
        [HttpGet ''https://raw.githubusercontent.com/main/skills/main/SKILL.md'',
         HttpGet ''https://raw.githubusercontent.com/master/skills/main/SKILL.md''])"
  by (simp add: sample_eval parseSource_def matches_owner_repo_def word_or_hyphen_def)

text \<open>
  Away from owners and repositories named \<^verbatim>\<open>main\<close> the fallback does what C1 says: the
  content on \<^verbatim>\<open>master\<close> is returned and no error is surfaced.
\<close>

lemma fetchSkill_master_fallback:
  assumes "CHR ''/'' \<notin> set own" "CHR ''/'' \<notin> set rep" "own \<noteq> ''main''" "rep \<noteq> ''main''"
    and "fetch pf (github_rawUrl own rep ''main'' (github_filePath path_opt)) = Some r" "\<not> ok r"
    and "fetch pf (github_rawUrl own rep ''master'' (github_filePath path_opt)) = Some m" "ok m"
  shows "\<exists>sk. fetchSkill pf (GitHub own rep None path_opt)
           = (Inr sk, [HttpGet (github_rawUrl own rep ''main'' (github_filePath path_opt)),
                       HttpGet (github_rawUrl own rep ''master'' (github_filePath path_opt))])
         \<and> skill_content sk = text_body m"
proof -
  have mu: "replace_first (github_rawUrl own rep ''main'' (github_filePath path_opt))
      ''/main/'' ''/master/'' = github_rawUrl own rep ''master'' (github_filePath path_opt)"
    using assms(1-4) by (simp add: masterUrl_correct_iff)
  have "fetchFromGitHub pf own rep None path_opt
      = (Inr (text_body m), [HttpGet (github_rawUrl own rep ''main'' (github_filePath path_opt)),
                       HttpGet (github_rawUrl own rep ''master'' (github_filePath path_opt))])"
    using assms(5-8) by (simp add: fetchFromGitHub_def or_else_def mu)
  then show ?thesis
    by (simp add: fetchSkill_def derive_id_def Let_def)
qed


text \<open>
  C8, as the code has it. For every successfully fetched item the derived identifier is: for
  a GitHub source with a path, the final \<^verbatim>\<open>/\<close>-separated segment of the path when that segment
  is not empty, and the repository name when it is empty (an empty path, or one ending in
  \<^verbatim>\<open>/\<close>); the repository name for a GitHub source without a path; \<^verbatim>\<open>path.basename\<close> of the
  path for a local source; for a url source the last non-empty segment of the URL's
  pathname, and the constant \<^verbatim>\<open>skill\<close> when the pathname has no non-empty segment.
\<close>

theorem fetchSkill_derived_id:
  assumes "fetchSkill pf source = (Inr sk, events)"
  shows "(\<forall>own rep br p. source = GitHub own rep br (Some p) \<and> last (split_slash p) \<noteq> []
            \<longrightarrow> skill_id sk = last (split_slash p))
    \<and> (\<forall>own rep br p. source = GitHub own rep br (Some p) \<and> last (split_slash p) = []
            \<longrightarrow> skill_id sk = rep)
    \<and> (\<forall>own rep br. source = GitHub own rep br None \<longrightarrow> skill_id sk = rep)
    \<and> (\<forall>p. source = Local p \<longrightarrow> skill_id sk = path_basename pf p)
    \<and> (\<forall>u. source = Url u \<longrightarrow>
          (\<exists>pathname. URL_pathname pf u = Some pathname
             \<and> skill_id sk =
                 (if filter (\<lambda>s. s \<noteq> []) (split_slash pathname) = [] then ''skill''
                  else last (filter (\<lambda>s. s \<noteq> []) (split_slash pathname)))))"
proof -
  have ne: "\<And>pn. filter (\<lambda>s. s \<noteq> []) (split_slash pn) \<noteq> [] \<Longrightarrow>
      last (filter (\<lambda>s. s \<noteq> []) (split_slash pn)) \<noteq> []"
    by (metis (mono_tags, lifting) last_in_set mem_Collect_eq set_filter)
  obtain r ev where f: "(case source of
               GitHub own rep br path_opt \<Rightarrow> fetchFromGitHub pf own rep br path_opt
             | Url u \<Rightarrow> fetchFromUrl pf u
             | Local p \<Rightarrow> fetchFromLocal pf p) = (r, ev)"
    by (cases "(case source of
               GitHub own rep br path_opt \<Rightarrow> fetchFromGitHub pf own rep br path_opt
             | Url u \<Rightarrow> fetchFromUrl pf u
             | Local p \<Rightarrow> fetchFromLocal pf p)") auto
  from assms have d: "derive_id pf source = Inr (skill_id sk)"
    unfolding fetchSkill_def f by (auto simp: Let_def split: sum.splits)
  show ?thesis
    using d ne
    by (cases source)
      (auto simp add: derive_id_def or_else_def pop_def split_slash_nonempty split: option.splits if_splits)
qed

theorem fetchSkill_derived_id_witness:
  "fetchSkill sample_platform (GitHub ''acme'' ''skills'' (Some ''dev'') (Some ''tools/lint''))
     = (Inr \<lparr>skill_id = ''lint'', skill_name = ''lint'', skill_description = [],
             skill_content = ''# lint, on dev'',
             skill_source = GitHub ''acme'' ''skills'' (Some ''dev'') (Some ''tools/lint'')\<rparr>,
        [HttpGet ''https://raw.githubusercontent.com/acme/skills/dev/tools/lint/SKILL.md''])
   \<and> last (split_slash ''tools/lint'') \<noteq> []
   \<and> ''lint'' = last (split_slash ''tools/lint'')
   \<and> fetchSkill sample_platform (Url ''https://example.com/docs/guide.md'')
     = (Inr \<lparr>skill_id = ''guide.md'', skill_name = ''guide.md'', skill_description = [],
             skill_content = ''# guide'',
             skill_source = Url ''https://example.com/docs/guide.md''\<rparr>,
        [HttpGet ''https://example.com/docs/guide.md''])
   \<and> (\<exists>pathname. URL_pathname sample_platform ''https://example.com/docs/guide.md''
          = Some pathname
        \<and> ''guide.md'' = (if filter (\<lambda>s. s \<noteq> []) (split_slash pathname) = [] then ''skill''
              else last (filter (\<lambda>s. s \<noteq> []) (split_slash pathname))))"
proof -
  let ?g = "GitHub ''acme'' ''skills'' (Some ''dev'') (Some ''tools/lint'')"
  let ?gs = "\<lparr>skill_id = ''lint'', skill_name = ''lint'', skill_description = [],
             skill_content = ''# lint, on dev'', skill_source = ?g\<rparr>"
  let ?u = "Url ''https://example.com/docs/guide.md''"
  let ?us = "\<lparr>skill_id = ''guide.md'', skill_name = ''guide.md'', skill_description = [],
             skill_content = ''# guide'', skill_source = ?u\<rparr>"
  have g: "fetchSkill sample_platform ?g
      = (Inr ?gs, [HttpGet ''https://raw.githubusercontent.com/acme/skills/dev/tools/lint/SKILL.md''])"
    by (simp add: sample_eval)
  have u: "fetchSkill sample_platform ?u = (Inr ?us, [HttpGet ''https://example.com/docs/guide.md''])"
    by (simp add: sample_eval)
  have n: "last (split_slash ''tools/lint'') \<noteq> []" by simp
  have g': "skill_id ?gs = last (split_slash ''tools/lint'')"
    by (rule fetchSkill_derived_id [OF g, THEN conjunct1, rule_format])
      (rule conjI, rule refl, rule n)
  have u': "\<exists>pathname. URL_pathname sample_platform ''https://example.com/docs/guide.md''
          = Some pathname
        \<and> skill_id ?us = (if filter (\<lambda>s. s \<noteq> []) (split_slash pathname) = [] then ''skill''
              else last (filter (\<lambda>s. s \<noteq> []) (split_slash pathname)))"
    by (rule fetchSkill_derived_id [OF u, THEN conjunct2, THEN conjunct2, THEN conjunct2,
          THEN conjunct2, rule_format]) (rule refl)
  have i: "skill_id ?gs = ''lint''" "skill_id ?us = ''guide.md''" by simp_all
  note g'' = g' [unfolded i] and u'' = u' [unfolded i]
  show ?thesis
    by (intro conjI) (rule g u n g'' u'')+
qed

text \<open>
  C8 as stated fails on a GitHub path that ends in a slash, such as the one
  \<^verbatim>\<open>parseSource("acme/skills/lint/")\<close> returns: the final segment of \<^verbatim>\<open>lint/\<close> is empty, and the
  identifier is the repository name \<^verbatim>\<open>skills\<close>, neither that segment nor the constant default.
\<close>

theorem fetchSkill_trailing_slash_id_counterexample:
  "parseSource sample_platform ''acme/skills/lint/''
     = Inr (GitHub ''acme'' ''skills'' None (Some ''lint/''))
   \<and> fetchSkill sample_platform (GitHub ''acme'' ''skills'' None (Some ''lint/''))
     = (Inr \<lparr>skill_id = ''skills'', skill_name = ''skills'', skill_description = [],
             skill_content = ''# lint'',
             skill_source = GitHub ''acme'' ''skills'' None (Some ''lint/'')\<rparr>,
        [HttpGet ''https://raw.githubusercontent.com/acme/skills/main/lint//SKILL.md''])
   \<and> split_slash ''lint/'' = [''lint'', []]"
  by (simp add: sample_eval parseSource_def matches_owner_repo_def
      matches_owner_repo_path_def word_or_hyphen_def)


section \<open>Properties of the bridge writer\<close>

lemma writeBridgeFiles_fs_Cons:
  "fst (writeBridgeFiles pf fs (f # files) root ov) =
     (if fs (path_join pf root (filePath f)) \<noteq> None \<and> \<not> ov
      then fst (writeBridgeFiles pf fs files root ov)
      else fst (writeBridgeFiles pf (fs(path_join pf root (filePath f) \<mapsto> content f)) files root ov))"
  by (simp add: Let_def case_prod_beta)

lemma writeBridgeFiles_written_Cons:
  "fst (snd (writeBridgeFiles pf fs (f # files) root ov)) =
     (if fs (path_join pf root (filePath f)) \<noteq> None \<and> \<not> ov
      then fst (snd (writeBridgeFiles pf fs files root ov))
      else filePath f # fst (snd (writeBridgeFiles pf
             (fs(path_join pf root (filePath f) \<mapsto> content f)) files root ov)))"
  by (simp add: Let_def case_prod_beta)

lemma writeBridgeFiles_skipped_Cons:
  "snd (snd (writeBridgeFiles pf fs (f # files) root ov)) =
     (if fs (path_join pf root (filePath f)) \<noteq> None \<and> \<not> ov
      then filePath f # snd (snd (writeBridgeFiles pf fs files root ov))
      else snd (snd (writeBridgeFiles pf
             (fs(path_join pf root (filePath f) \<mapsto> content f)) files root ov)))"
  by (simp add: Let_def case_prod_beta)

lemmas writeBridgeFiles_Cons =
  writeBridgeFiles_fs_Cons writeBridgeFiles_written_Cons writeBridgeFiles_skipped_Cons

lemma writeBridgeFiles_keeps:
  "fs p \<noteq> None \<Longrightarrow> fst (writeBridgeFiles pf fs files root False) p = fs p"
proof (induction files arbitrary: fs)
  case Nil
  then show ?case by simp
next
  case (Cons f files)
  let ?dest = "path_join pf root (filePath f)"
  let ?fs' = "fs(?dest \<mapsto> content f)"
  show ?case
  proof (cases "fs ?dest")
    case None
    with Cons.prems have ne: "p \<noteq> ?dest" by auto
    then have same: "?fs' p = fs p" by simp
    then have "?fs' p \<noteq> None" using Cons.prems by simp
    then have "fst (writeBridgeFiles pf ?fs' files root False) p = ?fs' p"
      by (rule Cons.IH)
    then have "fst (writeBridgeFiles pf ?fs' files root False) p = fs p"
      by (simp only: same)
    with None show ?thesis
      by (simp add: writeBridgeFiles_fs_Cons del: writeBridgeFiles.simps)
  next
    case (Some old)
    have "fst (writeBridgeFiles pf fs files root False) p = fs p"
      using Cons.prems by (rule Cons.IH)
    with Some show ?thesis
      by (simp add: writeBridgeFiles_fs_Cons del: writeBridgeFiles.simps)
  qed
qed

lemma writeBridgeFiles_skips:
  "f \<in> set files \<Longrightarrow> fs (path_join pf root (filePath f)) \<noteq> None \<Longrightarrow>
     filePath f \<in> set (snd (snd (writeBridgeFiles pf fs files root False)))"
proof (induction files arbitrary: fs)
  case Nil
  then show ?case by simp
next
  case (Cons g files)
  let ?dest = "path_join pf root (filePath g)"
  show ?case
  proof (cases "fs ?dest")
    case None
    with Cons.prems have fg: "f \<noteq> g" by auto
    with Cons.prems have "f \<in> set files" by simp
    moreover have "(fs(?dest \<mapsto> content g)) (path_join pf root (filePath f)) \<noteq> None"
      using Cons.prems(2) by simp
    ultimately have "filePath f
        \<in> set (snd (snd (writeBridgeFiles pf (fs(?dest \<mapsto> content g)) files root False)))"
      by (rule Cons.IH)
    with None show ?thesis by (simp add: writeBridgeFiles_Cons del: writeBridgeFiles.simps)
  next
    case (Some old)
    show ?thesis
    proof (cases "f = g")
      case True
      with Some show ?thesis by (simp add: writeBridgeFiles_Cons del: writeBridgeFiles.simps)
    next
      case False
      with Cons.prems have "f \<in> set files" by simp
      then have "filePath f \<in> set (snd (snd (writeBridgeFiles pf fs files root False)))"
        using Cons.prems(2) by (rule Cons.IH)
      with Some show ?thesis by (simp add: writeBridgeFiles_Cons del: writeBridgeFiles.simps)
    qed
  qed
qed

lemma writeBridgeFiles_written_new:
  "x \<in> set (fst (snd (writeBridgeFiles pf fs files root False))) \<Longrightarrow>
     fs (path_join pf root x) = None"
proof (induction files arbitrary: fs)
  case Nil
  then show ?case by simp
next
  case (Cons g files)
  let ?dest = "path_join pf root (filePath g)"
  show ?case
  proof (cases "fs ?dest")
    case None
    show ?thesis
    proof (cases "x = filePath g")
      case True
      with None show ?thesis by simp
    next
      case False
      with Cons.prems None
      have "x \<in> set (fst (snd (writeBridgeFiles pf (fs(?dest \<mapsto> content g)) files root False)))"
        by (simp add: writeBridgeFiles_Cons del: writeBridgeFiles.simps)
      then have "(fs(?dest \<mapsto> content g)) (path_join pf root x) = None"
        by (rule Cons.IH)
      then show ?thesis by (simp split: if_splits)
    qed
  next
    case (Some old)
    with Cons.prems
    have "x \<in> set (fst (snd (writeBridgeFiles pf fs files root False)))"
      by (simp add: writeBridgeFiles_Cons del: writeBridgeFiles.simps)
    then show ?thesis by (rule Cons.IH)
  qed
qed

text \<open>
  C3. With \<^verbatim>\<open>overwrite=false\<close>, every candidate whose destination already exists is reported
  as skipped, is not reported as written, and the existing file keeps its content; and
  \<open>autoGenerateBridgeFiles\<close>, which never passes \<^verbatim>\<open>overwrite=true\<close>, leaves every file that
  existed before it ran unchanged.
\<close>

theorem writeBridgeFiles_never_overwrites:
  "(\<forall>f\<in>set files. \<forall>old. fs (path_join pf root (filePath f)) = Some old \<longrightarrow>
        filePath f \<in> set (snd (snd (writeBridgeFiles pf fs files root False)))
      \<and> filePath f \<notin> set (fst (snd (writeBridgeFiles pf fs files root False)))
      \<and> fst (writeBridgeFiles pf fs files root False) (path_join pf root (filePath f)) = Some old)
   \<and> (\<forall>p old. fs p = Some old \<longrightarrow>
        fst (autoGenerateBridgeFiles pf generateBridgeFiles default_root fs assistants) p = Some old)"
proof (intro conjI ballI allI impI)
  fix f old
  assume f: "f \<in> set files" and e: "fs (path_join pf root (filePath f)) = Some old"
  then show "filePath f \<in> set (snd (snd (writeBridgeFiles pf fs files root False)))"
    by (simp add: writeBridgeFiles_skips)
  show "filePath f \<notin> set (fst (snd (writeBridgeFiles pf fs files root False)))"
    using writeBridgeFiles_written_new[of "filePath f" pf fs files root] e by auto
  show "fst (writeBridgeFiles pf fs files root False) (path_join pf root (filePath f)) = Some old"
    using e by (simp add: writeBridgeFiles_keeps)
next
  fix p old
  assume "fs p = Some old"
  then have "fst (writeBridgeFiles pf fs (generateBridgeFiles assistants) default_root False) p
      = Some old"
    by (simp add: writeBridgeFiles_keeps)
  then show "fst (autoGenerateBridgeFiles pf generateBridgeFiles default_root fs assistants) p
      = Some old"
    by (cases "writeBridgeFiles pf fs (generateBridgeFiles assistants) default_root False")
      (simp add: autoGenerateBridgeFiles_def Let_def)
qed


theorem writeBridgeFiles_never_overwrites_witness:
  "\<lparr>filePath = ''CLAUDE.md'', content = ''Read .ai/ for instructions.'',
     description = ''Claude Code''\<rparr> \<in> set sample_bridge_files
   \<and> sample_fs (path_join sample_platform ''/proj'' ''CLAUDE.md'') = Some ''# my own notes''
   \<and> ''CLAUDE.md''
       \<in> set (snd (snd (writeBridgeFiles sample_platform sample_fs sample_bridge_files ''/proj'' False)))
   \<and> ''CLAUDE.md''
       \<notin> set (fst (snd (writeBridgeFiles sample_platform sample_fs sample_bridge_files ''/proj'' False)))
   \<and> fst (writeBridgeFiles sample_platform sample_fs sample_bridge_files ''/proj'' False)
         (path_join sample_platform ''/proj'' ''CLAUDE.md'') = Some ''# my own notes''
   \<and> sample_fs ''/proj/CLAUDE.md'' = Some ''# my own notes''
   \<and> fst (autoGenerateBridgeFiles sample_platform (\<lambda>assistants. sample_bridge_files) ''/proj''
           sample_fs [''claude'', ''codex'']) ''/proj/CLAUDE.md'' = Some ''# my own notes''"
proof -
  let ?f = "\<lparr>filePath = ''CLAUDE.md'', content = ''Read .ai/ for instructions.'',
     description = ''Claude Code''\<rparr>"
  have m: "?f \<in> set sample_bridge_files"
    by (simp add: sample_bridge_files_def)
  have e: "sample_fs (path_join sample_platform ''/proj'' (filePath ?f)) = Some ''# my own notes''"
    by (simp add: sample_fs_def sample_platform_def)
  have e': "sample_fs ''/proj/CLAUDE.md'' = Some ''# my own notes''"
    by (simp add: sample_fs_def)
  note w = writeBridgeFiles_never_overwrites
    [where pf = sample_platform and fs = sample_fs and files = sample_bridge_files
       and root = "''/proj''" and generateBridgeFiles = "\<lambda>assistants. sample_bridge_files"
       and default_root = "''/proj''" and assistants = "[''claude'', ''codex'']"]
  have a: "filePath ?f
       \<in> set (snd (snd (writeBridgeFiles sample_platform sample_fs sample_bridge_files ''/proj'' False)))
     \<and> filePath ?f
       \<notin> set (fst (snd (writeBridgeFiles sample_platform sample_fs sample_bridge_files ''/proj'' False)))
     \<and> fst (writeBridgeFiles sample_platform sample_fs sample_bridge_files ''/proj'' False)
         (path_join sample_platform ''/proj'' (filePath ?f)) = Some ''# my own notes''"
    by (rule w [THEN conjunct1, rule_format, OF m e])
  have b: "fst (autoGenerateBridgeFiles sample_platform (\<lambda>assistants. sample_bridge_files) ''/proj''
           sample_fs [''claude'', ''codex'']) ''/proj/CLAUDE.md'' = Some ''# my own notes''"
    by (rule w [THEN conjunct2, rule_format, OF e'])
  have n: "filePath ?f = ''CLAUDE.md''" by simp
  show ?thesis
    using m e a b e' unfolding n by (intro conjI) (elim conjE, assumption)+
qed

end
